theory Spec2Isabelle
  imports Complex_Main
begin

section \<open>Data model of the game state (server.js, createGameState)\<close>

text \<open>
  Anonymous \<open>{x, y}\<close> objects (waypoints, charging pads, alarm panels, the exit, the
  lock-pick target, remembered positions) are pairs of integers. A field that the
  source sets to \<open>null\<close> is an \<open>option\<close>. Timers and counters are JavaScript numbers
  that only ever hold integers; they are \<open>int\<close>.
\<close>

type_synonym pos = "int \<times> int"

type_synonym grid = "char list list"

record guardT =
  gx :: int
  gy :: int
  route :: "pos list"
  routeIdx :: nat
  gdir :: nat
  frozen :: bool
  frozenTimer :: int
  speed :: int
  moveTimer :: int
  alertLevel :: nat
  alertTimer :: int
  lastKnownThief :: "pos option"
  investigateTarget :: "pos option"

record thiefT =
  tx :: int
  ty :: int
  hp :: int
  maxHp :: int
  tloot :: int
  totalLoot :: int
  picking :: bool
  pickTimer :: int
  pickTarget :: "pos option"
  pickSpeed :: int
  spotted :: bool
  invulnTimer :: int
  action :: string
  visionRadius :: int
  sprinting :: bool
  sprintTimer :: int
  sprintDuration :: int
  sprintCooldown :: int
  sprintCooldownMax :: int
  noiseCharges :: int
  smokeCharges :: int
  locksPicked :: int

record effectT =
  eff_x :: int
  eff_y :: int
  eff_timer :: int

record droneT =
  drx :: int
  dry :: int
  battery :: int
  maxBattery :: int
  hacks :: int
  charging :: bool
  chargeTimer :: int
  chargeSpeed :: int
  freezeDuration :: int
  hackCost :: int
  empCharges :: int
  decoyCharges :: int
  ping :: "effectT option"

datatype doorKind = electronic | physical

record doorT =
  door_x :: int
  door_y :: int
  door_type :: doorKind
  door_open :: bool

record lootT =
  loot_x :: int
  loot_y :: int
  primary :: bool
  collected :: bool

record cameraT =
  cam_x :: int
  cam_y :: int
  cam_active :: bool
  cam_dir :: nat
  rotTimer :: int

record laserT =
  laser_x :: int
  laser_y :: int
  laser_active :: bool
  period :: int
  laser_timer :: int
  horizontal :: bool

record tripwireT =
  trip_x :: int
  trip_y :: int
  triggered :: bool

record safeT =
  safe_x :: int
  safe_y :: int
  safe_open :: bool
  lootValue :: int

record shakeT =
  intensity :: int
  duration :: int

text \<open>The bonus objectives of \<open>OBJECTIVE_TEMPLATES\<close>; the \<open>check\<close> closure of each
  template is the function \<open>objCheck\<close> below, applied to the objective's id.\<close>

datatype objId = speed_demon | ghost | hacker | collector | efficient | untouchable
  | locksmith | freeze_master

record objectiveT =
  oid :: objId
  completed :: bool

record gameState =
  gmap :: grid
  mapWidth :: int
  mapHeight :: int
  thief :: thiefT
  drone :: droneT
  guards :: "guardT list"
  doors :: "doorT list"
  loot :: "lootT list"
  cameras :: "cameraT list"
  chargingPads :: "pos list"
  alarmPanels :: "pos list"
  lasers :: "laserT list"
  tripwires :: "tripwireT list"
  safes :: "safeT list"
  exitPos :: pos
  alarmActive :: bool
  alarmTimer :: int
  primaryLootTotal :: int
  primaryLootCollected :: int
  bonusLootCollected :: int
  exitOpen :: bool
  gameOver :: bool
  gameWon :: bool
  timer :: int
  score :: int
  alertTriggered :: bool
  guardsHacked :: int
  noisemakers :: "effectT list"
  smokeClouds :: "effectT list"
  decoys :: "effectT list"
  objectives :: "objectiveT list"
  shakeEvents :: "shakeT list"
  sounds :: "string list"

record roomT =
  gameState :: "gameState option"
  paused :: bool

section \<open>Grid access and in-place updates\<close>

text \<open>\<open>state.map[y][x]\<close>. Every read in the modelled functions follows a bounds check
  against \<open>mapWidth\<close> and \<open>mapHeight\<close>, which are the dimensions of the grid.\<close>

definition tileAt :: "grid \<Rightarrow> int \<Rightarrow> int \<Rightarrow> char" where
  "tileAt m x y = m ! nat y ! nat x"

text \<open>\<open>state.map[y][x] = c\<close>. The positions written are those of entities, which
  \<open>generateLevel\<close> draws from the tiles of the grid, or a tile that passed
  \<open>isWalkable\<close>; a write outside the grid (where JavaScript would raise on a missing
  row, or grow the row) does not occur for such states and is the identity here.\<close>

definition setTile :: "grid \<Rightarrow> int \<Rightarrow> int \<Rightarrow> char \<Rightarrow> grid" where
  "setTile m x y c =
     (if 0 \<le> y \<and> nat y < length m \<and> 0 \<le> x \<and> nat x < length (m ! nat y)
      then m[nat y := (m ! nat y)[nat x := c]] else m)"

text \<open>\<open>arr.find(p)\<close> returns a reference to the first element satisfying \<open>p\<close>; the
  assignments to its fields that follow update that element of the array in place.\<close>

fun updateFirst :: "('a \<Rightarrow> bool) \<Rightarrow> ('a \<Rightarrow> 'a) \<Rightarrow> 'a list \<Rightarrow> 'a list" where
  "updateFirst P f [] = []"
| "updateFirst P f (x # xs) = (if P x then f x # xs else x # updateFirst P f xs)"

definition manhattan :: "int \<Rightarrow> int \<Rightarrow> int \<Rightarrow> int \<Rightarrow> int" where
  "manhattan x1 y1 x2 y2 = \<bar>x1 - x2\<bar> + \<bar>y1 - y2\<bar>"

section \<open>Walkability and vision blocking\<close>

definition isWalkable :: "gameState \<Rightarrow> int \<Rightarrow> int \<Rightarrow> bool" where
  "isWalkable s x y =
     (if x < 0 \<or> x \<ge> mapWidth s \<or> y < 0 \<or> y \<ge> mapHeight s then False
      else let tile = tileAt (gmap s) x y in
        if tile = CHR ''#'' then False
        else if tile = CHR ''S'' \<and>
                (case find (\<lambda>sf. safe_x sf = x \<and> safe_y sf = y) (safes s) of
                   Some sf \<Rightarrow> \<not> safe_open sf | None \<Rightarrow> False) then False
        else if (tile = CHR ''D'' \<or> tile = CHR ''L'') \<and>
                (case find (\<lambda>d. door_x d = x \<and> door_y d = y) (doors s) of
                   Some d \<Rightarrow> \<not> door_open d | None \<Rightarrow> False) then False
        else True)"

definition isBlockedForVision :: "gameState \<Rightarrow> int \<Rightarrow> int \<Rightarrow> bool" where
  "isBlockedForVision s x y =
     (if x < 0 \<or> x \<ge> mapWidth s \<or> y < 0 \<or> y \<ge> mapHeight s then True
      else let tile = tileAt (gmap s) x y in
        if tile = CHR ''#'' then True
        else if (tile = CHR ''D'' \<or> tile = CHR ''L'') \<and>
                (case find (\<lambda>d. door_x d = x \<and> door_y d = y) (doors s) of
                   Some d \<Rightarrow> \<not> door_open d | None \<Rightarrow> False) then True
        else if list_ex (\<lambda>c. \<bar>eff_x c - x\<bar> \<le> 1 \<and> \<bar>eff_y c - y\<bar> \<le> 1) (smokeClouds s)
          then True
        else False)"

section \<open>The thief's move (moveThief)\<close>

text \<open>The \<open>check\<close> closures of the objective templates.\<close>

fun objCheck :: "objId \<Rightarrow> gameState \<Rightarrow> bool" where
  "objCheck speed_demon s = (timer s < 90000)"
| "objCheck ghost s = (\<not> alertTriggered s)"
| "objCheck hacker s = (hacks (drone s) \<ge> 3)"
| "objCheck collector s = list_all collected (filter (\<lambda>l. \<not> primary l) (loot s))"
| "objCheck efficient s = (battery (drone s) \<ge> 50)"
| "objCheck untouchable s = (hp (thief s) = maxHp (thief s))"
| "objCheck locksmith s = (locksPicked (thief s) \<ge> 2)"
| "objCheck freeze_master s = (guardsHacked s \<ge> 3)"

text \<open>Tripwire check, lines 443-457: the first untriggered tripwire on the tile is
  triggered, its tile becomes floor, and the alarm is armed unless already active.\<close>

definition stepTripwire :: "gameState \<Rightarrow> int \<Rightarrow> int \<Rightarrow> gameState" where
  "stepTripwire s nx ny =
     (let P = (\<lambda>t. trip_x t = nx \<and> trip_y t = ny \<and> \<not> triggered t) in
      case find P (tripwires s) of
        None \<Rightarrow> s
      | Some t \<Rightarrow>
          let s1 = s\<lparr>tripwires := updateFirst P (\<lambda>t. t\<lparr>triggered := True\<rparr>) (tripwires s),
                     gmap := setTile (gmap s) nx ny CHR ''.''\<rparr>
          in if \<not> alarmActive s1
             then s1\<lparr>alarmActive := True, alarmTimer := 10000,
                     thief := (thief s1)\<lparr>spotted := True, action := ''TRIPWIRE!''\<rparr>,
                     alertTriggered := True,
                     sounds := sounds s1 @ [''alarm''],
                     shakeEvents := shakeEvents s1 @ [\<lparr>intensity = 4, duration = 400\<rparr>]\<rparr>
             else s1)"

text \<open>Loot pickup, lines 459-473. The unlock test sits inside the pickup branch and is
  evaluated after every pickup, primary or bonus.\<close>

definition stepLoot :: "gameState \<Rightarrow> int \<Rightarrow> int \<Rightarrow> gameState" where
  "stepLoot s nx ny =
     (let P = (\<lambda>l. loot_x l = nx \<and> loot_y l = ny \<and> \<not> collected l) in
      case find P (loot s) of
        None \<Rightarrow> s
      | Some lootItem \<Rightarrow>
          let s1 = s\<lparr>loot := updateFirst P (\<lambda>l. l\<lparr>collected := True\<rparr>) (loot s),
                     thief := (thief s)\<lparr>tloot := tloot (thief s) + 1,
                                        totalLoot := totalLoot (thief s) + 1\<rparr>\<rparr>;
              s2 = (if primary lootItem
                    then s1\<lparr>primaryLootCollected := primaryLootCollected s1 + 1\<rparr>
                    else s1\<lparr>bonusLootCollected := bonusLootCollected s1 + 1\<rparr>);
              s3 = s2\<lparr>gmap := setTile (gmap s2) nx ny CHR ''.'',
                      sounds := sounds s2 @ [''loot'']\<rparr>
          in if primaryLootCollected s3 \<ge> primaryLootTotal s3
             then s3\<lparr>exitOpen := True, sounds := sounds s3 @ [''doorOpen'']\<rparr>
             else s3)"

text \<open>Safe interaction, lines 475-487: the loop over \<open>state.safes\<close>, threading the
  state; the safes already visited are returned in order.\<close>

fun safeLoop :: "safeT list \<Rightarrow> gameState \<Rightarrow> int \<Rightarrow> int \<Rightarrow> safeT list \<times> gameState" where
  "safeLoop [] s nx ny = ([], s)"
| "safeLoop (sf # sfs) s nx ny =
     (if safe_open sf then
        (let (sfs', s') = safeLoop sfs s nx ny in (sf # sfs', s'))
      else
        let adjacent = (\<bar>nx - safe_x sf\<bar> + \<bar>ny - safe_y sf\<bar> = 1);
            droneOn = (drx (drone s) = safe_x sf \<and> dry (drone s) = safe_y sf)
        in if adjacent \<and> droneOn then
             (let s1 = s\<lparr>gmap := setTile (gmap s) (safe_x sf) (safe_y sf) CHR ''.'',
                         score := score s + lootValue sf,
                         sounds := sounds s @ [''loot'', ''hack'']\<rparr>;
                  (sfs', s') = safeLoop sfs s1 nx ny
              in (sf\<lparr>safe_open := True\<rparr> # sfs', s'))
           else
             (let (sfs', s') = safeLoop sfs s nx ny in (sf # sfs', s')))"

definition stepSafes :: "gameState \<Rightarrow> int \<Rightarrow> int \<Rightarrow> gameState" where
  "stepSafes s nx ny = (let (sfs, s') = safeLoop (safes s) s nx ny in s'\<lparr>safes := sfs\<rparr>)"

text \<open>The loop over the objectives at the win, lines 497-502.\<close>

fun scoreObjectives :: "objectiveT list \<Rightarrow> gameState \<Rightarrow> objectiveT list \<times> gameState" where
  "scoreObjectives [] s = ([], s)"
| "scoreObjectives (ob # obs) s =
     (if objCheck (oid ob) s then
        (let (obs', s') = scoreObjectives obs (s\<lparr>score := score s + 1000\<rparr>)
         in (ob\<lparr>completed := True\<rparr> # obs', s'))
      else
        (let (obs', s') = scoreObjectives obs s in (ob # obs', s')))"

text \<open>Exit check, lines 489-504.\<close>

definition stepExit :: "gameState \<Rightarrow> int \<Rightarrow> int \<Rightarrow> gameState" where
  "stepExit s nx ny =
     (if tileAt (gmap s) nx ny = CHR ''>'' \<and> exitOpen s then
        let s1 = s\<lparr>gameWon := True\<rparr>;
            s2 = s1\<lparr>score := score s1 + primaryLootCollected s1 * 1000\<rparr>;
            s3 = s2\<lparr>score := score s2 + bonusLootCollected s2 * 500\<rparr>;
            s4 = s3\<lparr>score := score s3 + max 0 (3000 - (timer s3 div 1000) * 10)\<rparr>;
            s5 = (if \<not> alertTriggered s4 then s4\<lparr>score := score s4 + 2000\<rparr> else s4);
            (obs, s6) = scoreObjectives (objectives s5) s5
        in s6\<lparr>objectives := obs, sounds := sounds s6 @ [''victory'']\<rparr>
      else s)"

text \<open>Lines 439-504: the position update and everything evaluated on arrival.\<close>

definition thiefArrive :: "gameState \<Rightarrow> int \<Rightarrow> int \<Rightarrow> gameState" where
  "thiefArrive s nx ny =
     (let s1 = s\<lparr>thief := (thief s)\<lparr>tx := nx, ty := ny\<rparr>, sounds := sounds s @ [''move'']\<rparr>
      in stepExit (stepSafes (stepLoot (stepTripwire s1 nx ny) nx ny) nx ny) nx ny)"

definition moveThief :: "gameState \<Rightarrow> int \<Rightarrow> int \<Rightarrow> gameState" where
  "moveThief s dx dy =
     (if gameOver s \<or> gameWon s \<or> picking (thief s) then s
      else
        let nx = tx (thief s) + dx; ny = ty (thief s) + dy in
        if \<not> isWalkable s nx ny then s
        else if find (\<lambda>l. laser_x l = nx \<and> laser_y l = ny \<and> laser_active l) (lasers s) \<noteq> None
                \<and> invulnTimer (thief s) \<le> 0
        then
          let s1 = s\<lparr>thief := (thief s)\<lparr>hp := hp (thief s) - 1, invulnTimer := 1500\<rparr>,
                     sounds := sounds s @ [''hit''],
                     shakeEvents := shakeEvents s @ [\<lparr>intensity = 3, duration = 300\<rparr>]\<rparr>
          in if hp (thief s1) \<le> 0
             then s1\<lparr>gameOver := True,
                     sounds := sounds s1 @ [''gameOver''],
                     shakeEvents := shakeEvents s1 @ [\<lparr>intensity = 8, duration = 500\<rparr>]\<rparr>
             else thiefArrive s1 nx ny
        else thiefArrive s nx ny)"

section \<open>Drone abilities (droneHack, droneEMP)\<close>

definition payHack :: "gameState \<Rightarrow> gameState" where
  "payHack s = s\<lparr>drone := (drone s)\<lparr>battery := max 0 (battery (drone s) - hackCost (drone s)),
                                     hacks := hacks (drone s) + 1\<rparr>\<rparr>"

definition droneHack :: "gameState \<Rightarrow> gameState" where
  "droneHack s =
     (if gameOver s \<or> gameWon s \<or> battery (drone s) \<le> 0 then s
      else
        let dx = drx (drone s); dy = dry (drone s);
            isDoor = (\<lambda>d. door_x d = dx \<and> door_y d = dy \<and> door_type d = electronic \<and> \<not> door_open d);
            isCam = (\<lambda>c. cam_x c = dx \<and> cam_y c = dy \<and> cam_active c);
            isGuard = (\<lambda>g. gx g = dx \<and> gy g = dy \<and> \<not> frozen g)
        in
        if find isDoor (doors s) \<noteq> None then
          (payHack (s\<lparr>doors := updateFirst isDoor (\<lambda>d. d\<lparr>door_open := True\<rparr>) (doors s),
                      gmap := setTile (gmap s) dx dy CHR ''.''\<rparr>))
             \<lparr>sounds := sounds s @ [''hack'', ''doorOpen'']\<rparr>
        else if find isCam (cameras s) \<noteq> None then
          (payHack (s\<lparr>cameras := updateFirst isCam (\<lambda>c. c\<lparr>cam_active := False\<rparr>) (cameras s),
                      gmap := setTile (gmap s) dx dy CHR ''.''\<rparr>))
             \<lparr>sounds := sounds s @ [''hack'']\<rparr>
        else if find isGuard (guards s) \<noteq> None then
          (payHack (s\<lparr>guards := updateFirst isGuard
                        (\<lambda>g. g\<lparr>frozen := True, frozenTimer := freezeDuration (drone s),
                               alertLevel := 0, alertTimer := 0,
                               lastKnownThief := None, investigateTarget := None\<rparr>) (guards s)\<rparr>))
             \<lparr>guardsHacked := guardsHacked s + 1, sounds := sounds s @ [''hack'']\<rparr>
        else if alarmActive s \<and> find (\<lambda>a. fst a = dx \<and> snd a = dy) (alarmPanels s) \<noteq> None then
          (payHack (s\<lparr>alarmActive := False, alarmTimer := 0,
                      thief := (thief s)\<lparr>spotted := False\<rparr>\<rparr>))
             \<lparr>sounds := sounds s @ [''hack'']\<rparr>
        else s)"

text \<open>The camera loop of droneEMP, lines 648-656, threading the grid.\<close>

fun empCameras :: "cameraT list \<Rightarrow> droneT \<Rightarrow> grid \<Rightarrow> cameraT list \<times> grid" where
  "empCameras [] d m = ([], m)"
| "empCameras (c # cs) d m =
     (if \<not> cam_active c then
        (let (cs', m') = empCameras cs d m in (c # cs', m'))
      else if manhattan (cam_x c) (cam_y c) (drx d) (dry d) \<le> 5 then
        (let (cs', m') = empCameras cs d (setTile m (cam_x c) (cam_y c) CHR ''.'')
         in (c\<lparr>cam_active := False\<rparr> # cs', m'))
      else
        (let (cs', m') = empCameras cs d m in (c # cs', m')))"

text \<open>The guard loop of droneEMP, lines 658-666.\<close>

fun empGuards :: "guardT list \<Rightarrow> droneT \<Rightarrow> guardT list" where
  "empGuards [] d = []"
| "empGuards (g # gs) d =
     (if frozen g then g # empGuards gs d
      else if manhattan (gx g) (gy g) (drx d) (dry d) \<le> 3
        then g\<lparr>frozen := True, frozenTimer := 3000, alertLevel := 0\<rparr> # empGuards gs d
      else g # empGuards gs d)"

definition droneEMP :: "gameState \<Rightarrow> gameState" where
  "droneEMP s =
     (if gameOver s \<or> gameWon s then s
      else if empCharges (drone s) \<le> 0 then s
      else
        let s1 = s\<lparr>drone := (drone s)\<lparr>empCharges := empCharges (drone s) - 1\<rparr>\<rparr>;
            (cs, m) = empCameras (cameras s1) (drone s1) (gmap s1);
            s2 = s1\<lparr>cameras := cs, gmap := m\<rparr>;
            s3 = s2\<lparr>guards := empGuards (guards s2) (drone s2)\<rparr>
        in s3\<lparr>sounds := sounds s3 @ [''emp''],
               shakeEvents := shakeEvents s3 @ [\<lparr>intensity = 5, duration = 400\<rparr>]\<rparr>)"

section \<open>The tick (tickRoom and the update functions it calls)\<close>

text \<open>Lock-pick progress (updatePickLock). While \<open>picking\<close> holds, \<open>pickTarget\<close> is set
  (startPickLock sets both, stopPickLock clears both).\<close>

definition updatePickLock :: "gameState \<Rightarrow> int \<Rightarrow> gameState" where
  "updatePickLock s dt =
     (if \<not> picking (thief s) then s
      else
        let s1 = s\<lparr>thief := (thief s)\<lparr>pickTimer := pickTimer (thief s) - dt\<rparr>\<rparr> in
        if pickTimer (thief s1) \<le> 0 then
          let P = (\<lambda>d. case pickTarget (thief s1) of
                          Some p \<Rightarrow> door_x d = fst p \<and> door_y d = snd p | None \<Rightarrow> False);
              s2 = (case find P (doors s1) of
                      Some door \<Rightarrow>
                        s1\<lparr>doors := updateFirst P (\<lambda>d. d\<lparr>door_open := True\<rparr>) (doors s1),
                           gmap := setTile (gmap s1) (door_x door) (door_y door) CHR ''.'',
                           thief := (thief s1)\<lparr>locksPicked := locksPicked (thief s1) + 1\<rparr>\<rparr>
                    | None \<Rightarrow> s1)
          in s2\<lparr>thief := (thief s2)\<lparr>picking := False, pickTarget := None, action := ''Idle''\<rparr>,
                 sounds := sounds s2 @ [''doorOpen'']\<rparr>
        else s1)"

subsection \<open>Guard AI (updateGuards)\<close>

text \<open>The effective movement interval, lines 779-781. \<open>speed * 0.8\<close> and \<open>speed * 0.5\<close>
  are rational here; on the integer speeds and timers of the game the comparison with
  \<open>moveTimer\<close> has the same outcome as in double precision.\<close>

definition effectiveSpeed :: "guardT \<Rightarrow> rat" where
  "effectiveSpeed g =
     (let e0 = of_int (speed g);
          e1 = (if alertLevel g = 1 then max 200 (of_int (speed g) * (4 / 5)) else e0);
          e2 = (if alertLevel g = 2 then max 150 (of_int (speed g) * (1 / 2)) else e1)
      in e2)"

text \<open>Noise-makers, then decoys, lines 786-811.\<close>

definition noiseNear :: "guardT \<Rightarrow> effectT \<Rightarrow> bool" where
  "noiseNear g n = (manhattan (eff_x n) (eff_y n) (gx g) (gy g) \<le> 8)"

definition decoyNear :: "guardT \<Rightarrow> effectT \<Rightarrow> bool" where
  "decoyNear g d = (manhattan (eff_x d) (eff_y d) (gx g) (gy g) \<le> 6)"

definition attract :: "guardT \<Rightarrow> gameState \<Rightarrow> guardT" where
  "attract g s =
     (case find (noiseNear g) (noisemakers s) of
        Some noise \<Rightarrow>
          g\<lparr>investigateTarget := Some (eff_x noise, eff_y noise),
            alertLevel := 1, alertTimer := 8000\<rparr>
      | None \<Rightarrow>
          (case find (decoyNear g) (decoys s) of
             Some decoy \<Rightarrow>
               g\<lparr>investigateTarget := Some (eff_x decoy, eff_y decoy),
                 alertLevel := 2, alertTimer := 6000\<rparr>
           | None \<Rightarrow> g))"

text \<open>Target resolution, lines 813-821.\<close>

definition chooseTarget :: "guardT \<Rightarrow> pos" where
  "chooseTarget g =
     (case (if alertLevel g = 2 then lastKnownThief g else None) of
        Some p \<Rightarrow> p
      | None \<Rightarrow> (case investigateTarget g of
                   Some p \<Rightarrow> p
                 | None \<Rightarrow> route g ! routeIdx g))"

text \<open>One step toward the target, lines 823-837; the flag is \<open>moved\<close>.\<close>

definition moveToward :: "guardT \<Rightarrow> gameState \<Rightarrow> pos \<Rightarrow> guardT \<times> bool" where
  "moveToward g s target =
     (if gx g \<noteq> fst target \<or> gy g \<noteq> snd target then
        let horiz = (\<bar>fst target - gx g\<bar> > \<bar>snd target - gy g\<bar>);
            gdx = (if horiz then (if fst target > gx g then 1 else -1) else 0);
            gdy = (if horiz then 0 else (if snd target > gy g then 1 else -1));
            nx = gx g + gdx; ny = gy g + gdy
        in if isWalkable s nx ny then
             (g\<lparr>gx := nx, gy := ny,
                gdir := (if gdx = 1 then 1 else if gdx = -1 then 3
                         else if gdy = -1 then 0 else if gdy = 1 then 2 else gdir g)\<rparr>, True)
           else (g, False)
      else (g, False))"

text \<open>Patrol waypoint cycling, lines 839-844.\<close>

definition cycleRoute :: "guardT \<Rightarrow> bool \<Rightarrow> pos \<Rightarrow> guardT" where
  "cycleRoute g moved target =
     (if alertLevel g = 0 \<and> (\<not> moved \<or> (gx g = fst target \<and> gy g = snd target))
      then g\<lparr>routeIdx := (routeIdx g + 1) mod length (route g)\<rparr> else g)"

text \<open>Targets reached, lines 846-852.\<close>

definition clearReached :: "guardT \<Rightarrow> guardT" where
  "clearReached g =
     (let g1 = (if investigateTarget g = Some (gx g, gy g)
                then g\<lparr>investigateTarget := None\<rparr> else g)
      in if alertLevel g1 = 2 \<and> lastKnownThief g1 = Some (gx g1, gy g1)
         then g1\<lparr>lastKnownThief := None\<rparr> else g1)"

text \<open>Alert timer decay, lines 854-863.\<close>

definition decayAlert :: "guardT \<Rightarrow> int \<Rightarrow> guardT" where
  "decayAlert g dt =
     (if alertLevel g > 0 then
        let g1 = g\<lparr>alertTimer := alertTimer g - dt\<rparr> in
        if alertTimer g1 \<le> 0
        then g1\<lparr>alertLevel := 0, alertTimer := 0, lastKnownThief := None,
                investigateTarget := None\<rparr>
        else g1
      else g)"

definition dirVecs :: "pos list" where
  "dirVecs = [(0, -1), (1, 0), (0, 1), (-1, 0)]"

text \<open>The ray of a guard or camera: \<open>for (i = 1; i <= range; i++)\<close>, stopping at the
  first blocked tile or at the thief.\<close>

fun rayHits :: "gameState \<Rightarrow> int \<Rightarrow> int \<Rightarrow> pos \<Rightarrow> int list \<Rightarrow> bool" where
  "rayHits s ox oy dv [] = False"
| "rayHits s ox oy dv (i # is) =
     (let vx = ox + fst dv * i; vy = oy + snd dv * i in
      if isBlockedForVision s vx vy then False
      else if vx = tx (thief s) \<and> vy = ty (thief s) then True
      else rayHits s ox oy dv is)"

text \<open>\<open>canSeeThief\<close>, lines 867-887: the ray, the peripheral tiles, the collision.\<close>

definition canSeeThief :: "guardT \<Rightarrow> gameState \<Rightarrow> bool" where
  "canSeeThief g s =
     (let dv = dirVecs ! gdir g;
          visionRange = (if alertLevel g \<ge> 1 then 5 else 3);
          c1 = rayHits s (gx g) (gy g) dv [1..visionRange];
          perps = (if fst dv = 0 then [(1, 0), (-1, 0)] else [(0, 1), (0, -1)]);
          c2 = (if \<not> c1 \<and> alertLevel g \<ge> 1
                then list_ex (\<lambda>p. gx g + fst p = tx (thief s) \<and> gy g + snd p = ty (thief s)
                                   \<and> \<not> isBlockedForVision s (gx g + fst p) (gy g + snd p)) perps
                else c1)
      in if gx g = tx (thief s) \<and> gy g = ty (thief s) then True else c2)"

text \<open>Arming the alarm on detection; the callers test \<open>alarmActive\<close> first.\<close>

definition raiseAlarm :: "gameState \<Rightarrow> gameState" where
  "raiseAlarm s =
     s\<lparr>alarmActive := True, alarmTimer := 10000,
       thief := (thief s)\<lparr>spotted := True, action := ''SPOTTED!''\<rparr>,
       alertTriggered := True,
       sounds := sounds s @ [''alarm''],
       shakeEvents := shakeEvents s @ [\<lparr>intensity = 4, duration = 400\<rparr>]\<rparr>"

text \<open>Contact damage in the tick (guard lines 914-924 with intensity 5, laser lines
  710-720 with intensity 3); the callers test the contact and \<open>invulnTimer\<close> first.\<close>

definition contactDamage :: "gameState \<Rightarrow> int \<Rightarrow> gameState" where
  "contactDamage s k =
     (let s1 = s\<lparr>thief := (thief s)\<lparr>hp := hp (thief s) - 1, invulnTimer := 1500\<rparr>,
                 sounds := sounds s @ [''hit''],
                 shakeEvents := shakeEvents s @ [\<lparr>intensity = k, duration = 300\<rparr>]\<rparr>
      in if hp (thief s1) \<le> 0
         then s1\<lparr>gameOver := True,
                 sounds := sounds s1 @ [''gameOver''],
                 shakeEvents := shakeEvents s1 @ [\<lparr>intensity = 8, duration = 500\<rparr>]\<rparr>
         else s1)"

text \<open>Vision check of one guard, lines 865-925.\<close>

definition guardVision :: "guardT \<Rightarrow> gameState \<Rightarrow> guardT \<times> gameState" where
  "guardVision g s =
     (let canSee = canSeeThief g s;
          thiefDist = manhattan (gx g) (gy g) (tx (thief s)) (ty (thief s));
          g1 = (if \<not> canSee \<and> thiefDist \<le> 2 \<and> alertLevel g = 0 \<and> sprinting (thief s)
                then g\<lparr>alertLevel := 1, alertTimer := 5000,
                       investigateTarget := Some (tx (thief s), ty (thief s))\<rparr>
                else g);
          g2 = (if canSee
                then g1\<lparr>alertLevel := 2, alertTimer := 10000,
                        lastKnownThief := Some (tx (thief s), ty (thief s))\<rparr>
                else g1);
          s1 = (if canSee \<and> \<not> alarmActive s then raiseAlarm s else s);
          s2 = (if gx g2 = tx (thief s1) \<and> gy g2 = ty (thief s1) \<and> invulnTimer (thief s1) \<le> 0
                then contactDamage s1 5 else s1)
      in (g2, s2))"

text \<open>The part of the loop body that runs when the movement timer has matured,
  lines 784-863, before the vision check.\<close>

definition guardThink :: "guardT \<Rightarrow> gameState \<Rightarrow> int \<Rightarrow> guardT" where
  "guardThink g s dt =
     (let g1 = attract (g\<lparr>moveTimer := 0\<rparr>) s;
          target = chooseTarget g1;
          (g2, moved) = moveToward g1 s target;
          g3 = cycleRoute g2 moved target;
          g4 = clearReached g3
      in decayAlert g4 dt)"

text \<open>The body of the loop over the guards, lines 770-926.\<close>

definition guardStep :: "guardT \<Rightarrow> gameState \<Rightarrow> int \<Rightarrow> guardT \<times> gameState" where
  "guardStep g s dt =
     (if frozen g then
        (let g1 = g\<lparr>frozenTimer := frozenTimer g - dt\<rparr>
         in if frozenTimer g1 \<le> 0 then (g1\<lparr>frozen := False, frozenTimer := 0\<rparr>, s)
            else (g1, s))
      else
        let g1 = g\<lparr>moveTimer := moveTimer g + dt\<rparr> in
        if of_int (moveTimer g1) < effectiveSpeed g1 then (g1, s)
        else guardVision (guardThink g1 s dt) s)"

fun guardLoop :: "guardT list \<Rightarrow> gameState \<Rightarrow> int \<Rightarrow> guardT list \<times> gameState" where
  "guardLoop [] s dt = ([], s)"
| "guardLoop (g # gs) s dt =
     (let (g', s1) = guardStep g s dt;
          (gs', s2) = guardLoop gs s1 dt
      in (g' # gs', s2))"

text \<open>The loop over the cameras, lines 929-955; \<open>cam.rotTimer || 0\<close> is the field
  \<open>rotTimer\<close>, which starts at 0.\<close>

fun cameraLoop :: "cameraT list \<Rightarrow> gameState \<Rightarrow> int \<Rightarrow> cameraT list \<times> gameState" where
  "cameraLoop [] s dt = ([], s)"
| "cameraLoop (c # cs) s dt =
     (if \<not> cam_active c then
        (let (cs', s') = cameraLoop cs s dt in (c # cs', s'))
      else
        let r = rotTimer c + dt;
            c1 = (if r \<ge> 4000 then c\<lparr>rotTimer := 0, cam_dir := (cam_dir c + 1) mod 4\<rparr>
                  else c\<lparr>rotTimer := r\<rparr>);
            detected = rayHits s (cam_x c1) (cam_y c1) (dirVecs ! cam_dir c1) [1..3];
            s1 = (if detected \<and> \<not> alarmActive s then raiseAlarm s else s);
            (cs', s') = cameraLoop cs s1 dt
        in (c1 # cs', s'))"

definition updateGuards :: "gameState \<Rightarrow> int \<Rightarrow> gameState" where
  "updateGuards s dt =
     (let (gs, s1) = guardLoop (guards s) s dt;
          s2 = s1\<lparr>guards := gs\<rparr>;
          (cs, s3) = cameraLoop (cameras s2) s2 dt
      in s3\<lparr>cameras := cs\<rparr>)"

subsection \<open>Alarm, drone charge, invulnerability, lasers, effects\<close>

definition updateAlarm :: "gameState \<Rightarrow> int \<Rightarrow> gameState" where
  "updateAlarm s dt =
     (if \<not> alarmActive s then
        (if spotted (thief s)
         then s\<lparr>thief := (thief s)\<lparr>spotted := False,
                   action := (if sprinting (thief s) then ''SPRINTING'' else ''Idle'')\<rparr>\<rparr>
         else s)
      else
        let s1 = s\<lparr>alarmTimer := alarmTimer s - dt\<rparr> in
        if alarmTimer s1 \<le> 0 then
          let s2 = s1\<lparr>thief := (thief s1)\<lparr>hp := hp (thief s1) - 1\<rparr>,
                      sounds := sounds s1 @ [''hit''],
                      shakeEvents := shakeEvents s1 @ [\<lparr>intensity = 5, duration = 300\<rparr>],
                      alarmActive := False, alarmTimer := 0\<rparr>
          in if hp (thief s2) \<le> 0
             then s2\<lparr>gameOver := True,
                     sounds := sounds s2 @ [''gameOver''],
                     shakeEvents := shakeEvents s2 @ [\<lparr>intensity = 8, duration = 500\<rparr>]\<rparr>
             else s2\<lparr>thief := (thief s2)\<lparr>spotted := False, action := ''Idle''\<rparr>\<rparr>
        else s1)"

definition updateDroneCharge :: "gameState \<Rightarrow> int \<Rightarrow> gameState" where
  "updateDroneCharge s dt =
     (if find (\<lambda>p. fst p = drx (drone s) \<and> snd p = dry (drone s)) (chargingPads s) \<noteq> None
         \<and> battery (drone s) < maxBattery (drone s)
      then
        let d1 = (drone s)\<lparr>charging := True, chargeTimer := chargeTimer (drone s) + dt\<rparr> in
        if chargeTimer d1 \<ge> chargeSpeed d1
        then s\<lparr>drone := d1\<lparr>battery := min (maxBattery d1) (battery d1 + 25), chargeTimer := 0\<rparr>,
               sounds := sounds s @ [''charge'']\<rparr>
        else s\<lparr>drone := d1\<rparr>
      else s\<lparr>drone := (drone s)\<lparr>charging := False, chargeTimer := 0\<rparr>\<rparr>)"

definition updateInvuln :: "gameState \<Rightarrow> int \<Rightarrow> gameState" where
  "updateInvuln s dt =
     (if invulnTimer (thief s) > 0
      then s\<lparr>thief := (thief s)\<lparr>invulnTimer := invulnTimer (thief s) - dt\<rparr>\<rparr> else s)"

text \<open>The loop over the lasers (updateLasers).\<close>

fun laserLoop :: "laserT list \<Rightarrow> gameState \<Rightarrow> int \<Rightarrow> laserT list \<times> gameState" where
  "laserLoop [] s dt = ([], s)"
| "laserLoop (l # ls) s dt =
     (let l1 = l\<lparr>laser_timer := laser_timer l + dt\<rparr>;
          toggled = (laser_timer l1 \<ge> period l1);
          l2 = (if toggled then l1\<lparr>laser_timer := 0, laser_active := \<not> laser_active l1\<rparr> else l1);
          s1 = (if toggled \<and> laser_active l2 then s\<lparr>sounds := sounds s @ [''laser'']\<rparr> else s);
          s2 = (if laser_active l2 \<and> laser_x l2 = tx (thief s1) \<and> laser_y l2 = ty (thief s1)
                   \<and> invulnTimer (thief s1) \<le> 0
                then contactDamage s1 3 else s1);
          (ls', s3) = laserLoop ls s2 dt
      in (l2 # ls', s3))"

definition updateLasers :: "gameState \<Rightarrow> int \<Rightarrow> gameState" where
  "updateLasers s dt = (let (ls, s1) = laserLoop (lasers s) s dt in s1\<lparr>lasers := ls\<rparr>)"

text \<open>Expiry of timed effects: the backward loops with \<open>splice\<close> decrement every timer
  and drop the entries that reached zero, keeping the order of the others.\<close>

definition expire :: "int \<Rightarrow> effectT list \<Rightarrow> effectT list" where
  "expire dt es = filter (\<lambda>e. \<not> eff_timer e \<le> 0) (map (\<lambda>e. e\<lparr>eff_timer := eff_timer e - dt\<rparr>) es)"

definition updateEffects :: "gameState \<Rightarrow> int \<Rightarrow> gameState" where
  "updateEffects s dt =
     (let s1 = s\<lparr>noisemakers := expire dt (noisemakers s),
                 smokeClouds := expire dt (smokeClouds s),
                 decoys := expire dt (decoys s)\<rparr>;
          s2 = (case ping (drone s1) of
                  None \<Rightarrow> s1
                | Some p \<Rightarrow>
                    s1\<lparr>drone := (drone s1)\<lparr>ping :=
                         (if eff_timer p - dt \<le> 0 then None
                          else Some (p\<lparr>eff_timer := eff_timer p - dt\<rparr>))\<rparr>\<rparr>);
          s3 = (if sprinting (thief s2) then
                  let t1 = (thief s2)\<lparr>sprintTimer := sprintTimer (thief s2) - dt\<rparr> in
                  if sprintTimer t1 \<le> 0
                  then s2\<lparr>thief := t1\<lparr>sprinting := False,
                                       sprintCooldown := sprintCooldownMax t1,
                                       action := ''Idle''\<rparr>\<rparr>
                  else s2\<lparr>thief := t1\<rparr>
                else s2)
      in if sprintCooldown (thief s3) > 0
         then s3\<lparr>thief := (thief s3)\<lparr>sprintCooldown := sprintCooldown (thief s3) - dt\<rparr>\<rparr>
         else s3)"

text \<open>Lines 992-1004 of tickRoom: the updates in their fixed order, then the periodic
  alarm sound.\<close>

definition tickState :: "gameState \<Rightarrow> int \<Rightarrow> gameState" where
  "tickState s dt =
     (let s1 = s\<lparr>timer := timer s + dt\<rparr>;
          s2 = updatePickLock s1 dt;
          s3 = updateGuards s2 dt;
          s4 = updateAlarm s3 dt;
          s5 = updateDroneCharge s4 dt;
          s6 = updateInvuln s5 dt;
          s7 = updateLasers s6 dt;
          s8 = updateEffects s7 dt
      in if alarmActive s8 \<and> (timer s8 div 500) mod 2 = 0 \<and> ((timer s8 - dt) div 500) mod 2 \<noteq> 0
         then s8\<lparr>sounds := sounds s8 @ [''alarm'']\<rparr> else s8)"

definition tickRoom :: "roomT \<Rightarrow> int \<Rightarrow> roomT" where
  "tickRoom room dt =
     (case gameState room of
        None \<Rightarrow> room
      | Some s \<Rightarrow>
          if gameOver s \<or> gameWon s \<or> paused room then room
          else room\<lparr>gameState := Some (tickState s dt)\<rparr>)"

text \<open>The effect of broadcastState on the state: the one-shot event queues are
  cleared after every broadcast. The interval callback of a room runs
  \<open>tickRoom(room, 100)\<close> and then \<open>broadcastState(room)\<close>.\<close>

definition broadcastState :: "roomT \<Rightarrow> roomT" where
  "broadcastState room =
     (case gameState room of
        None \<Rightarrow> room
      | Some s \<Rightarrow> room\<lparr>gameState := Some (s\<lparr>sounds := [], shakeEvents := []\<rparr>)\<rparr>)"

fun serverTicks :: "nat \<Rightarrow> roomT \<Rightarrow> roomT" where
  "serverTicks 0 room = room"
| "serverTicks (Suc n) room = serverTicks n (broadcastState (tickRoom room 100))"

section \<open>The level generator (generateLevel)\<close>











subsection \<open>Rooms\<close>





subsection \<open>Corridors\<close>









subsection \<open>Doors\<close>





subsection \<open>Entity placement\<close>









subsection \<open>Guards\<close>



subsection \<open>generateLevel\<close>


subsection \<open>The initial state (createGameState without a previous state)\<close>


section \<open>Predicates used to state the properties\<close>

text \<open>Something hackable lies under the drone cursor: the four targets that
  droneHack looks for, in its order.\<close>

definition hackable :: "gameState \<Rightarrow> bool" where
  "hackable s =
     ((\<exists>d\<in>set (doors s). door_x d = drx (drone s) \<and> door_y d = dry (drone s)
          \<and> door_type d = electronic \<and> \<not> door_open d)
    \<or> (\<exists>c\<in>set (cameras s). cam_x c = drx (drone s) \<and> cam_y c = dry (drone s) \<and> cam_active c)
    \<or> (\<exists>g\<in>set (guards s). gx g = drx (drone s) \<and> gy g = dry (drone s) \<and> \<not> frozen g)
    \<or> (alarmActive s \<and> (\<exists>a\<in>set (alarmPanels s). fst a = drx (drone s) \<and> snd a = dry (drone s))))"




text \<open>A laser that is on the thief's tile and active once its timer has advanced by
  \<open>dt\<close>: the test of updateLasers, without the invulnerability timer.\<close>

definition laserOn :: "gameState \<Rightarrow> int \<Rightarrow> laserT \<Rightarrow> bool" where
  "laserOn s dt l =
     (laser_x l = tx (thief s) \<and> laser_y l = ty (thief s)
      \<and> (if laser_timer l + dt \<ge> period l then \<not> laser_active l else laser_active l))"

text \<open>Reachability over the tiles of a state: 4-directional moves between walkable
  tiles.\<close>

definition adjacent :: "pos \<Rightarrow> pos \<Rightarrow> bool" where
  "adjacent p q = (\<bar>fst p - fst q\<bar> + \<bar>snd p - snd q\<bar> = 1)"

















section \<open>Concrete states\<close>

text \<open>A corridor of seven floor tiles between walls, with the thief at its west end
  and the drone cursor on the third tile; the states below vary it.\<close>

definition baseThief :: thiefT where
  "baseThief = \<lparr>tx = 1, ty = 1, hp = 3, maxHp = 3, tloot = 0, totalLoot = 0,
     picking = False, pickTimer = 0, pickTarget = None, pickSpeed = 3000,
     spotted = False, invulnTimer = 0, action = ''Idle'', visionRadius = 4,
     sprinting = False, sprintTimer = 0, sprintDuration = 2000,
     sprintCooldown = 0, sprintCooldownMax = 10000,
     noiseCharges = 2, smokeCharges = 1, locksPicked = 0\<rparr>"

definition baseDrone :: droneT where
  "baseDrone = \<lparr>drx = 3, dry = 1, battery = 100, maxBattery = 100, hacks = 0,
     charging = False, chargeTimer = 0, chargeSpeed = 3000, freezeDuration = 5000,
     hackCost = 25, empCharges = 1, decoyCharges = 1, ping = None\<rparr>"

definition baseState :: gameState where
  "baseState = \<lparr>gmap = [''#########'', ''#.......#'', ''#########''],
     mapWidth = 9, mapHeight = 3, thief = baseThief, drone = baseDrone,
     guards = [], doors = [], loot = [], cameras = [], chargingPads = [],
     alarmPanels = [], lasers = [], tripwires = [], safes = [], exitPos = (7, 1),
     alarmActive = False, alarmTimer = 0, primaryLootTotal = 0,
     primaryLootCollected = 0, bonusLootCollected = 0, exitOpen = False,
     gameOver = False, gameWon = False, timer = 0, score = 0,
     alertTriggered = False, guardsHacked = 0, noisemakers = [], smokeClouds = [],
     decoys = [], objectives = [], shakeEvents = [], sounds = []\<rparr>"

definition baseGuard :: guardT where
  "baseGuard = \<lparr>gx = 3, gy = 1, route = [(3, 1), (5, 1)], routeIdx = 0, gdir = 0,
     frozen = False, frozenTimer = 0, speed = 450, moveTimer = 0, alertLevel = 0,
     alertTimer = 0, lastKnownThief = None, investigateTarget = None\<rparr>"

text \<open>The alarm is armed with 100 ms left.\<close>

definition alarmDemo :: gameState where
  "alarmDemo = baseState\<lparr>alarmActive := True, alarmTimer := 100\<rparr>"

text \<open>An active laser on the tile east of the thief, who has one hit point left.\<close>

definition laserDemo :: gameState where
  "laserDemo = baseState\<lparr>
     gmap := [''#########'', ''#.Z.....#'', ''#########''],
     lasers := [\<lparr>laser_x = 2, laser_y = 1, laser_active = True, period = 3000,
                 laser_timer = 0, horizontal = False\<rparr>],
     thief := baseThief\<lparr>hp := 1\<rparr>\<rparr>"

text \<open>The same laser, and a thief with all three hit points.\<close>

definition laserHitDemo :: gameState where
  "laserHitDemo = laserDemo\<lparr>thief := baseThief\<rparr>"

text \<open>The thief, one hit point left, is picking the physical door to its west (2000 ms
  to go); the active laser is on the tile to its east.\<close>

definition pickingDemo :: gameState where
  "pickingDemo = baseState\<lparr>
     gmap := [''#########'', ''#L.Z....#'', ''#########''],
     doors := [\<lparr>door_x = 1, door_y = 1, door_type = physical, door_open = False\<rparr>],
     lasers := [\<lparr>laser_x = 3, laser_y = 1, laser_active = True, period = 3000,
                 laser_timer = 0, horizontal = False\<rparr>],
     thief := baseThief\<lparr>tx := 2, hp := 1, picking := True, pickTimer := 2000,
                         pickTarget := Some (1, 1), action := ''Picking lock...''\<rparr>\<rparr>"


text \<open>An alerted guard under the drone cursor and a patrolling guard four tiles away.\<close>

definition empDemo :: gameState where
  "empDemo = baseState\<lparr>
     guards := [baseGuard\<lparr>alertLevel := 2, alertTimer := 5000,
                          lastKnownThief := Some (1, 1), investigateTarget := Some (2, 1)\<rparr>,
                baseGuard\<lparr>gx := 7\<rparr>]\<rparr>"

text \<open>The same guards and drone, with its EMP charge unused, after the level was lost.\<close>

definition empOverDemo :: gameState where
  "empOverDemo = empDemo\<lparr>gameOver := True, thief := baseThief\<lparr>hp := 0\<rparr>\<rparr>"

text \<open>All primary loot is collected and the exit is unlocked; a bonus item lies on the
  tile east of the thief.\<close>

definition unlockDemo :: gameState where
  "unlockDemo = baseState\<lparr>
     gmap := [''#########'', ''#.$.....#'', ''#########''],
     thief := baseThief\<lparr>tloot := 3, totalLoot := 3\<rparr>,
     loot := [\<lparr>loot_x = 3, loot_y = 1, primary = True, collected = True\<rparr>,
              \<lparr>loot_x = 4, loot_y = 1, primary = True, collected = True\<rparr>,
              \<lparr>loot_x = 5, loot_y = 1, primary = True, collected = True\<rparr>,
              \<lparr>loot_x = 2, loot_y = 1, primary = False, collected = False\<rparr>],
     primaryLootTotal := 3, primaryLootCollected := 3, exitOpen := True\<rparr>"

text \<open>The last primary item lies on the tile east of the thief; the exit is locked.\<close>

definition lastLootDemo :: gameState where
  "lastLootDemo = baseState\<lparr>
     gmap := [''#########'', ''#.*.....#'', ''#########''],
     thief := baseThief\<lparr>tloot := 2, totalLoot := 2\<rparr>,
     loot := [\<lparr>loot_x = 4, loot_y = 1, primary = True, collected = True\<rparr>,
              \<lparr>loot_x = 5, loot_y = 1, primary = True, collected = True\<rparr>,
              \<lparr>loot_x = 2, loot_y = 1, primary = True, collected = False\<rparr>],
     primaryLootTotal := 3, primaryLootCollected := 2, exitOpen := False\<rparr>"

text \<open>The alarm is about to expire while the thief, hit 500 ms ago, is invulnerable.\<close>

definition invulnDemo :: gameState where
  "invulnDemo = baseState\<lparr>alarmActive := True, alarmTimer := 100,
     thief := baseThief\<lparr>hp := 2, invulnTimer := 1000\<rparr>\<rparr>"

text \<open>A patrolling guard whose movement timer matures on the next tick, with a decoy
  two tiles away.\<close>

definition decoyDemo :: gameState where
  "decoyDemo = baseState\<lparr>decoys := [\<lparr>eff_x = 5, eff_y = 1, eff_timer = 6000\<rparr>]\<rparr>"

definition decoyGuard :: guardT where
  "decoyGuard = baseGuard\<lparr>moveTimer := 400\<rparr>"

text \<open>A guard has caught the thief and stands on the thief's tile; the thief has one
  hit point left, the invulnerability window has run out, and the alarm is in its last
  100 ms.\<close>

definition caughtDemo :: gameState where
  "caughtDemo = baseState\<lparr>
     timer := 9900, alarmActive := True, alarmTimer := 100, alertTriggered := True,
     thief := baseThief\<lparr>hp := 1, spotted := True, action := ''SPOTTED!''\<rparr>,
     guards := [baseGuard\<lparr>gx := 1, route := [(1, 1), (5, 1)], moveTimer := 200,
                          alertLevel := 2, alertTimer := 10000,
                          lastKnownThief := Some (1, 1)\<rparr>]\<rparr>"

text \<open>An alerted guard (speed 450, so it thinks every third tick of 100 ms) stands on
  its waypoint facing a wall, with alert timer \<open>a\<close> and movement timer \<open>m\<close>; the thief
  is out of its sight, and there are no noise-makers or decoys.\<close>

definition alertDemo :: "int \<Rightarrow> int \<Rightarrow> int \<Rightarrow> gameState" where
  "alertDemo a m tm = baseState\<lparr>
     timer := tm,
     guards := [baseGuard\<lparr>alertLevel := 2, alertTimer := a, moveTimer := m\<rparr>]\<rparr>"

definition alertRoom :: "int \<Rightarrow> int \<Rightarrow> int \<Rightarrow> roomT" where
  "alertRoom a m tm = \<lparr>gameState = Some (alertDemo a m tm), paused = False\<rparr>"

text \<open>An invulnerable thief with a guard on its tile (movement timer about to mature),
  an active laser under it and another on the tile to its east.\<close>

definition contactDemo :: gameState where
  "contactDemo = baseState\<lparr>
     gmap := [''#########'', ''#ZZ.....#'', ''#########''],
     thief := baseThief\<lparr>hp := 2, invulnTimer := 1000\<rparr>,
     guards := [baseGuard\<lparr>gx := 1, route := [(1, 1), (5, 1)], moveTimer := 400\<rparr>],
     lasers := [\<lparr>laser_x = 1, laser_y = 1, laser_active = True, period = 3000,
                 laser_timer = 0, horizontal = False\<rparr>,
                \<lparr>laser_x = 2, laser_y = 1, laser_active = True, period = 3000,
                 laser_timer = 0, horizontal = False\<rparr>]\<rparr>"

text \<open>The same contact, with the invulnerability window in its last 100 ms.\<close>

definition lastInvulnDemo :: gameState where
  "lastInvulnDemo = contactDemo\<lparr>thief := baseThief\<lparr>hp := 2, invulnTimer := 100\<rparr>\<rparr>"







section \<open>Auxiliary lemmas\<close>

lemma find_None_set: "(find P xs = None) = (\<forall>x\<in>set xs. \<not> P x)"
  by (induction xs) auto

lemma droneHack_nothing: "\<not> hackable s \<Longrightarrow> droneHack s = s"
  unfolding hackable_def droneHack_def Let_def
  by (simp add: find_None_set) blast

lemma droneHack_empty_battery: "battery (drone s) \<le> 0 \<Longrightarrow> droneHack s = s"
  by (simp add: droneHack_def)


lemma droneHack_effect:
  "droneHack s \<noteq> s \<Longrightarrow> 0 < battery (drone s) \<and> hackable s
     \<and> battery (drone (droneHack s)) = max 0 (battery (drone s) - hackCost (drone s))"
  apply (cases "hackable s")
   apply (cases "battery (drone s) \<le> 0")
    apply (simp add: droneHack_empty_battery)
   apply (simp add: droneHack_def payHack_def Let_def split: if_splits)
  apply (simp add: droneHack_nothing)
  done


lemma empGuards_length: "length (empGuards gs d) = length gs"
  by (induction gs) auto

lemma empGuards_nth:
  "i < length gs \<Longrightarrow>
   empGuards gs d ! i =
     (if \<not> frozen (gs ! i) \<and> manhattan (gx (gs ! i)) (gy (gs ! i)) (drx d) (dry d) \<le> 3
      then (gs ! i)\<lparr>frozen := True, frozenTimer := 3000, alertLevel := 0\<rparr> else gs ! i)"
proof (induction gs arbitrary: i)
  case Nil
  then show ?case by simp
next
  case (Cons g gs)
  show ?case
  proof (cases i)
    case 0
    then show ?thesis by simp
  next
    case (Suc j)
    with Cons.prems have "j < length gs" by simp
    from Cons.IH [OF this] Suc show ?thesis by simp
  qed
qed

lemma empGuards_drone_pos:
  "drx d' = drx d \<Longrightarrow> dry d' = dry d \<Longrightarrow> empGuards gs d' = empGuards gs d"
  by (induction gs) auto

lemma droneEMP_guards:
  assumes "\<not> gameOver s" "\<not> gameWon s" "0 < empCharges (drone s)"
  shows "guards (droneEMP s) = empGuards (guards s) (drone s)"
  using assms
  by (simp add: droneEMP_def Let_def split: prod.splits)
     (rule empGuards_drone_pos; simp)

lemma updateFirst_length: "length (updateFirst P f xs) = length xs"
  by (induction xs) auto

lemma updateFirst_nth_first:
  "i < length xs \<Longrightarrow> P (xs ! i) \<Longrightarrow> \<forall>j<i. \<not> P (xs ! j) \<Longrightarrow> updateFirst P f xs ! i = f (xs ! i)"
proof (induction xs arbitrary: i)
  case Nil
  then show ?case by simp
next
  case (Cons x xs)
  show ?case
  proof (cases i)
    case 0
    with Cons.prems show ?thesis by simp
  next
    case (Suc k)
    with Cons.prems have nx: "\<not> P x" by auto
    have "k < length xs" "P (xs ! k)" "\<forall>j<k. \<not> P (xs ! j)"
      using Cons.prems Suc by auto
    from Cons.IH [OF this] nx Suc show ?thesis by simp
  qed
qed

lemma find_Some_ex: "(find P xs \<noteq> None) = (\<exists>x\<in>set xs. P x)"
  by (induction xs) auto

lemma droneHack_guards:
  assumes "\<not> gameOver s" "\<not> gameWon s" "0 < battery (drone s)"
    and "\<forall>d\<in>set (doors s). \<not> (door_x d = drx (drone s) \<and> door_y d = dry (drone s)
            \<and> door_type d = electronic \<and> \<not> door_open d)"
    and "\<forall>c\<in>set (cameras s). \<not> (cam_x c = drx (drone s) \<and> cam_y c = dry (drone s) \<and> cam_active c)"
    and "\<exists>g\<in>set (guards s). gx g = drx (drone s) \<and> gy g = dry (drone s) \<and> \<not> frozen g"
  shows "guards (droneHack s) =
     updateFirst (\<lambda>g. gx g = drx (drone s) \<and> gy g = dry (drone s) \<and> \<not> frozen g)
       (\<lambda>g. g\<lparr>frozen := True, frozenTimer := freezeDuration (drone s), alertLevel := 0,
              alertTimer := 0, lastKnownThief := None, investigateTarget := None\<rparr>) (guards s)"
proof -
  have d: "find (\<lambda>d. door_x d = drx (drone s) \<and> door_y d = dry (drone s)
            \<and> door_type d = electronic \<and> \<not> door_open d) (doors s) = None"
    using assms(4) by (simp add: find_None_set)
  have c: "find (\<lambda>c. cam_x c = drx (drone s) \<and> cam_y c = dry (drone s) \<and> cam_active c) (cameras s) = None"
    using assms(5) by (simp add: find_None_set)
  have g: "find (\<lambda>g. gx g = drx (drone s) \<and> gy g = dry (drone s) \<and> \<not> frozen g) (guards s) \<noteq> None"
    using assms(6) find_Some_ex [of "\<lambda>g. gx g = drx (drone s) \<and> gy g = dry (drone s) \<and> \<not> frozen g" "guards s"] by blast
  show ?thesis using assms(1-3) d c g
    by (simp add: droneHack_def Let_def payHack_def)
qed

lemma tileAt_setTile_other:
  assumes "0 \<le> x" "0 \<le> y" "(x, y) \<noteq> (x', y')"
  shows "tileAt (setTile m x' y' c) x y = tileAt m x y"
proof (cases "0 \<le> y' \<and> nat y' < length m \<and> 0 \<le> x' \<and> nat x' < length (m ! nat y')")
  case False
  then have "setTile m x' y' c = m" unfolding setTile_def by (rule if_not_P)
  then show ?thesis by simp
next
  case True
  show ?thesis
  proof (cases "y = y'")
    case False
    with True assms have "nat y \<noteq> nat y'" by arith
    with True show ?thesis by (simp add: setTile_def tileAt_def)
  next
    case yy: True
    with assms have "x \<noteq> x'" by simp
    with True assms have "nat x \<noteq> nat x'" by arith
    with True yy show ?thesis by (simp add: setTile_def tileAt_def)
  qed
qed

lemma safeLoop_frame:
  "safeLoop sfs s nx ny = (sfs', s') \<Longrightarrow>
     exitOpen s' = exitOpen s \<and> gameWon s' = gameWon s \<and> gameOver s' = gameOver s
   \<and> primaryLootCollected s' = primaryLootCollected s
   \<and> primaryLootTotal s' = primaryLootTotal s \<and> thief s' = thief s"
proof (induction sfs arbitrary: s sfs' s')
  case Nil
  then show ?case by simp
next
  case (Cons sf sfs)
  show ?case
  proof (cases "\<not> safe_open sf \<and> \<bar>nx - safe_x sf\<bar> + \<bar>ny - safe_y sf\<bar> = 1
                \<and> drx (drone s) = safe_x sf \<and> dry (drone s) = safe_y sf")
    case True
    let ?s1 = "s\<lparr>gmap := setTile (gmap s) (safe_x sf) (safe_y sf) CHR ''.'',
                  score := score s + lootValue sf, sounds := sounds s @ [''loot'', ''hack'']\<rparr>"
    obtain a b where ab: "safeLoop sfs ?s1 nx ny = (a, b)" by (cases "safeLoop sfs ?s1 nx ny")
    with Cons.prems True have "s' = b" by (simp add: Let_def)
    with Cons.IH [OF ab] show ?thesis by simp
  next
    case False
    obtain a b where ab: "safeLoop sfs s nx ny = (a, b)" by (cases "safeLoop sfs s nx ny")
    with Cons.prems False have "s' = b" by (auto simp add: Let_def split: if_splits)
    with Cons.IH [OF ab] show ?thesis by simp
  qed
qed

lemma safeLoop_tile:
  "safeLoop sfs s nx ny = (sfs', s') \<Longrightarrow> 0 \<le> nx \<Longrightarrow> 0 \<le> ny \<Longrightarrow>
     tileAt (gmap s') nx ny = tileAt (gmap s) nx ny"
proof (induction sfs arbitrary: s sfs' s')
  case Nil
  then show ?case by simp
next
  case (Cons sf sfs)
  show ?case
  proof (cases "\<not> safe_open sf \<and> \<bar>nx - safe_x sf\<bar> + \<bar>ny - safe_y sf\<bar> = 1
                \<and> drx (drone s) = safe_x sf \<and> dry (drone s) = safe_y sf")
    case True
    let ?s1 = "s\<lparr>gmap := setTile (gmap s) (safe_x sf) (safe_y sf) CHR ''.'',
                  score := score s + lootValue sf, sounds := sounds s @ [''loot'', ''hack'']\<rparr>"
    obtain a b where ab: "safeLoop sfs ?s1 nx ny = (a, b)" by (cases "safeLoop sfs ?s1 nx ny")
    with Cons.prems True have sb: "s' = b" by (simp add: Let_def)
    from True have ne: "(nx, ny) \<noteq> (safe_x sf, safe_y sf)" by auto
    have "tileAt (gmap ?s1) nx ny = tileAt (gmap s) nx ny"
      using tileAt_setTile_other [OF Cons.prems(2) Cons.prems(3) ne] by simp
    with Cons.IH [OF ab Cons.prems(2) Cons.prems(3)] sb show ?thesis by simp
  next
    case False
    obtain a b where ab: "safeLoop sfs s nx ny = (a, b)" by (cases "safeLoop sfs s nx ny")
    with Cons.prems False have "s' = b" by (auto simp add: Let_def split: if_splits)
    with Cons.IH [OF ab Cons.prems(2) Cons.prems(3)] show ?thesis by simp
  qed
qed

lemma scoreObjectives_frame:
  "scoreObjectives obs s = (obs', s') \<Longrightarrow>
     exitOpen s' = exitOpen s \<and> gameWon s' = gameWon s \<and> gameOver s' = gameOver s
   \<and> primaryLootCollected s' = primaryLootCollected s
   \<and> primaryLootTotal s' = primaryLootTotal s \<and> thief s' = thief s \<and> gmap s' = gmap s
   \<and> sounds s' = sounds s"
proof (induction obs arbitrary: s obs' s')
  case Nil
  then show ?case by simp
next
  case (Cons ob obs)
  show ?case
  proof (cases "objCheck (oid ob) s")
    case True
    obtain a b where ab: "scoreObjectives obs (s\<lparr>score := score s + 1000\<rparr>) = (a, b)"
      by (cases "scoreObjectives obs (s\<lparr>score := score s + 1000\<rparr>)")
    with Cons.prems True have "s' = b" by simp
    with Cons.IH [OF ab] show ?thesis by simp
  next
    case False
    obtain a b where ab: "scoreObjectives obs s = (a, b)" by (cases "scoreObjectives obs s")
    with Cons.prems False have "s' = b" by simp
    with Cons.IH [OF ab] show ?thesis by simp
  qed
qed

subsection \<open>The effect of a hack\<close>








lemma stepTripwire_frame:
  "exitOpen (stepTripwire s nx ny) = exitOpen s
   \<and> gameWon (stepTripwire s nx ny) = gameWon s
   \<and> primaryLootCollected (stepTripwire s nx ny) = primaryLootCollected s
   \<and> primaryLootTotal (stepTripwire s nx ny) = primaryLootTotal s
   \<and> hp (thief (stepTripwire s nx ny)) = hp (thief s)
   \<and> loot (stepTripwire s nx ny) = loot s"
  by (simp add: stepTripwire_def Let_def split: option.splits)

lemma stepTripwire_none:
  "find (\<lambda>t. trip_x t = nx \<and> trip_y t = ny \<and> \<not> triggered t) (tripwires s) = None
   \<Longrightarrow> stepTripwire s nx ny = s"
  by (simp add: stepTripwire_def Let_def)

lemma stepLoot_none:
  "find (\<lambda>l. loot_x l = nx \<and> loot_y l = ny \<and> \<not> collected l) (loot s) = None
   \<Longrightarrow> stepLoot s nx ny = s"
  by (simp add: stepLoot_def Let_def)

lemma stepLoot_unlock:
  "primaryLootTotal (stepLoot s nx ny) = primaryLootTotal s
   \<and> gameWon (stepLoot s nx ny) = gameWon s
   \<and> hp (thief (stepLoot s nx ny)) = hp (thief s)
   \<and> primaryLootCollected s \<le> primaryLootCollected (stepLoot s nx ny)
   \<and> primaryLootCollected (stepLoot s nx ny) \<le> primaryLootCollected s + 1
   \<and> (exitOpen s \<longrightarrow> exitOpen (stepLoot s nx ny))
   \<and> (\<not> exitOpen s \<and> exitOpen (stepLoot s nx ny) \<longrightarrow>
        primaryLootTotal s \<le> primaryLootCollected (stepLoot s nx ny))
   \<and> (exitOpen s = (primaryLootTotal s \<le> primaryLootCollected s) \<longrightarrow>
        exitOpen (stepLoot s nx ny) =
          (primaryLootTotal s \<le> primaryLootCollected (stepLoot s nx ny)))"
  by (simp add: stepLoot_def Let_def split: option.splits)

lemma stepSafes_frame:
  "exitOpen (stepSafes s nx ny) = exitOpen s
   \<and> gameWon (stepSafes s nx ny) = gameWon s
   \<and> primaryLootCollected (stepSafes s nx ny) = primaryLootCollected s
   \<and> primaryLootTotal (stepSafes s nx ny) = primaryLootTotal s
   \<and> hp (thief (stepSafes s nx ny)) = hp (thief s)"
proof -
  obtain a b where ab: "safeLoop (safes s) s nx ny = (a, b)" by (cases "safeLoop (safes s) s nx ny")
  from safeLoop_frame [OF ab] ab show ?thesis by (simp add: stepSafes_def)
qed

lemma stepSafes_tile:
  "0 \<le> nx \<Longrightarrow> 0 \<le> ny \<Longrightarrow> tileAt (gmap (stepSafes s nx ny)) nx ny = tileAt (gmap s) nx ny"
proof -
  assume n: "0 \<le> nx" "0 \<le> ny"
  obtain a b where ab: "safeLoop (safes s) s nx ny = (a, b)" by (cases "safeLoop (safes s) s nx ny")
  from safeLoop_tile [OF ab n] ab show ?thesis by (simp add: stepSafes_def)
qed

lemma stepExit_frame:
  "exitOpen (stepExit s nx ny) = exitOpen s
   \<and> primaryLootCollected (stepExit s nx ny) = primaryLootCollected s
   \<and> primaryLootTotal (stepExit s nx ny) = primaryLootTotal s
   \<and> hp (thief (stepExit s nx ny)) = hp (thief s)
   \<and> gameWon (stepExit s nx ny) = (gameWon s \<or> (tileAt (gmap s) nx ny = CHR ''>'' \<and> exitOpen s))"
proof (cases "tileAt (gmap s) nx ny = CHR ''>'' \<and> exitOpen s")
  case False
  then show ?thesis by (auto simp add: stepExit_def)
next
  case True
  let ?s5 = "(if \<not> alertTriggered s then
        s\<lparr>gameWon := True, score := score s + primaryLootCollected s * 1000 + bonusLootCollected s * 500
              + max 0 (3000 - timer s div 1000 * 10) + 2000\<rparr>
       else s\<lparr>gameWon := True, score := score s + primaryLootCollected s * 1000 + bonusLootCollected s * 500
              + max 0 (3000 - timer s div 1000 * 10)\<rparr>)"
  obtain a b where ab: "scoreObjectives (objectives ?s5) ?s5 = (a, b)"
    by (cases "scoreObjectives (objectives ?s5) ?s5")
  from scoreObjectives_frame [OF ab] have fr: "exitOpen b = exitOpen ?s5 \<and> gameWon b = gameWon ?s5
     \<and> primaryLootCollected b = primaryLootCollected ?s5 \<and> primaryLootTotal b = primaryLootTotal ?s5
     \<and> thief b = thief ?s5" by simp
  have "stepExit s nx ny = b\<lparr>objectives := a, sounds := sounds b @ [''victory'']\<rparr>"
    using True ab by (simp add: stepExit_def Let_def split: if_splits)
  with fr True show ?thesis by (simp split: if_splits)
qed


lemma thiefArrive_unlock:
  "primaryLootTotal (thiefArrive s nx ny) = primaryLootTotal s
   \<and> hp (thief (thiefArrive s nx ny)) = hp (thief s)
   \<and> primaryLootCollected s \<le> primaryLootCollected (thiefArrive s nx ny)
   \<and> primaryLootCollected (thiefArrive s nx ny) \<le> primaryLootCollected s + 1
   \<and> (exitOpen s \<longrightarrow> exitOpen (thiefArrive s nx ny))
   \<and> (\<not> exitOpen s \<and> exitOpen (thiefArrive s nx ny) \<longrightarrow>
        primaryLootTotal s \<le> primaryLootCollected (thiefArrive s nx ny))
   \<and> (exitOpen s = (primaryLootTotal s \<le> primaryLootCollected s) \<longrightarrow>
        exitOpen (thiefArrive s nx ny) =
          (primaryLootTotal s \<le> primaryLootCollected (thiefArrive s nx ny)))"
proof -
  let ?s1 = "s\<lparr>thief := (thief s)\<lparr>tx := nx, ty := ny\<rparr>, sounds := sounds s @ [''move'']\<rparr>"
  let ?s2 = "stepTripwire ?s1 nx ny"
  have a: "exitOpen ?s2 = exitOpen s" "primaryLootCollected ?s2 = primaryLootCollected s"
    "primaryLootTotal ?s2 = primaryLootTotal s" "hp (thief ?s2) = hp (thief s)"
    using stepTripwire_frame [of ?s1 nx ny] by simp_all
  show ?thesis
    unfolding thiefArrive_def Let_def
    using stepLoot_unlock [of ?s2 nx ny] a
    by (simp add: stepExit_frame stepSafes_frame)
qed

lemma thiefArrive_win:
  assumes "\<not> gameWon s" "0 \<le> nx" "0 \<le> ny"
    and "find (\<lambda>t. trip_x t = nx \<and> trip_y t = ny \<and> \<not> triggered t) (tripwires s) = None"
    and "find (\<lambda>l. loot_x l = nx \<and> loot_y l = ny \<and> \<not> collected l) (loot s) = None"
  shows "gameWon (thiefArrive s nx ny) = (tileAt (gmap s) nx ny = CHR ''>'' \<and> exitOpen s)"
proof -
  let ?s1 = "s\<lparr>thief := (thief s)\<lparr>tx := nx, ty := ny\<rparr>, sounds := sounds s @ [''move'']\<rparr>"
  have t: "stepTripwire ?s1 nx ny = ?s1" using assms(4) by (simp add: stepTripwire_none)
  have l: "stepLoot ?s1 nx ny = ?s1" using assms(5) by (simp add: stepLoot_none)
  have "gameWon (thiefArrive s nx ny) =
          (gameWon (stepSafes ?s1 nx ny)
           \<or> (tileAt (gmap (stepSafes ?s1 nx ny)) nx ny = CHR ''>'' \<and> exitOpen (stepSafes ?s1 nx ny)))"
    unfolding thiefArrive_def Let_def t l by (simp add: stepExit_frame)
  then show ?thesis
    using assms(1) by (simp add: stepSafes_frame stepSafes_tile [OF assms(2) assms(3)])
qed

lemma isWalkable_nonneg: "isWalkable s x y \<Longrightarrow> 0 \<le> x \<and> 0 \<le> y"
  by (simp add: isWalkable_def split: if_splits)

lemma moveThief_cases:
  "moveThief s dx dy = s
   \<or> moveThief s dx dy = thiefArrive s (tx (thief s) + dx) (ty (thief s) + dy)
   \<or> (invulnTimer (thief s) \<le> 0 \<and>
        (let s1 = s\<lparr>thief := (thief s)\<lparr>hp := hp (thief s) - 1, invulnTimer := 1500\<rparr>,
                     sounds := sounds s @ [''hit''],
                     shakeEvents := shakeEvents s @ [\<lparr>intensity = 3, duration = 300\<rparr>]\<rparr>
         in moveThief s dx dy = thiefArrive s1 (tx (thief s) + dx) (ty (thief s) + dy)
            \<or> moveThief s dx dy = s1\<lparr>gameOver := True,
                     sounds := sounds s1 @ [''gameOver''],
                     shakeEvents := shakeEvents s1 @ [\<lparr>intensity = 8, duration = 500\<rparr>]\<rparr>))"
  by (simp add: moveThief_def Let_def)

lemma moveThief_unlock:
  "primaryLootTotal (moveThief s dx dy) = primaryLootTotal s
   \<and> primaryLootCollected s \<le> primaryLootCollected (moveThief s dx dy)
   \<and> primaryLootCollected (moveThief s dx dy) \<le> primaryLootCollected s + 1
   \<and> (exitOpen s \<longrightarrow> exitOpen (moveThief s dx dy))
   \<and> (\<not> exitOpen s \<and> exitOpen (moveThief s dx dy) \<longrightarrow>
        primaryLootTotal s \<le> primaryLootCollected (moveThief s dx dy))
   \<and> (exitOpen s = (primaryLootTotal s \<le> primaryLootCollected s) \<longrightarrow>
        exitOpen (moveThief s dx dy) =
          (primaryLootTotal s \<le> primaryLootCollected (moveThief s dx dy)))"
proof -
  let ?nx = "tx (thief s) + dx" and ?ny = "ty (thief s) + dy"
  let ?s1 = "s\<lparr>thief := (thief s)\<lparr>hp := hp (thief s) - 1, invulnTimer := 1500\<rparr>,
                     sounds := sounds s @ [''hit''],
                     shakeEvents := shakeEvents s @ [\<lparr>intensity = 3, duration = 300\<rparr>]\<rparr>"
  let ?s2 = "?s1\<lparr>gameOver := True, sounds := sounds ?s1 @ [''gameOver''],
                     shakeEvents := shakeEvents ?s1 @ [\<lparr>intensity = 8, duration = 500\<rparr>]\<rparr>"
  consider "moveThief s dx dy = s" | "moveThief s dx dy = thiefArrive s ?nx ?ny"
    | "moveThief s dx dy = thiefArrive ?s1 ?nx ?ny" | "moveThief s dx dy = ?s2"
    using moveThief_cases [of s dx dy] unfolding Let_def by blast
  then show ?thesis
  proof cases
    case 1
    then show ?thesis by simp
  next
    case 2
    then show ?thesis using thiefArrive_unlock [of s ?nx ?ny] by simp
  next
    case 3
    then show ?thesis using thiefArrive_unlock [of ?s1 ?nx ?ny] by simp
  next
    case 4
    then show ?thesis by simp
  qed
qed

lemma moveThief_win:
  assumes live: "\<not> gameOver s" "\<not> gameWon s" "\<not> picking (thief s)"
    and walk: "isWalkable s (tx (thief s) + dx) (ty (thief s) + dy)"
    and nofatal: "\<not> ((\<exists>l\<in>set (lasers s). laser_x l = tx (thief s) + dx
                  \<and> laser_y l = ty (thief s) + dy \<and> laser_active l)
                  \<and> invulnTimer (thief s) \<le> 0 \<and> hp (thief s) \<le> 1)"
    and notrip: "\<forall>t\<in>set (tripwires s). \<not> (trip_x t = tx (thief s) + dx \<and> trip_y t = ty (thief s) + dy \<and> \<not> triggered t)"
    and noloot: "\<forall>l\<in>set (loot s). \<not> (loot_x l = tx (thief s) + dx \<and> loot_y l = ty (thief s) + dy \<and> \<not> collected l)"
  shows "gameWon (moveThief s dx dy) =
           (tileAt (gmap s) (tx (thief s) + dx) (ty (thief s) + dy) = CHR ''>'' \<and> exitOpen s)"
proof -
  let ?nx = "tx (thief s) + dx" and ?ny = "ty (thief s) + dy"
  let ?s1 = "s\<lparr>thief := (thief s)\<lparr>hp := hp (thief s) - 1, invulnTimer := 1500\<rparr>,
                     sounds := sounds s @ [''hit''],
                     shakeEvents := shakeEvents s @ [\<lparr>intensity = 3, duration = 300\<rparr>]\<rparr>"
  from isWalkable_nonneg [OF walk] have nn: "0 \<le> ?nx" "0 \<le> ?ny" by simp_all
  have ft: "find (\<lambda>t. trip_x t = ?nx \<and> trip_y t = ?ny \<and> \<not> triggered t) (tripwires s) = None"
    using notrip by (simp add: find_None_set)
  have fl: "find (\<lambda>l. loot_x l = ?nx \<and> loot_y l = ?ny \<and> \<not> collected l) (loot s) = None"
    using noloot by (simp add: find_None_set)
  have w0: "gameWon (thiefArrive s ?nx ?ny) = (tileAt (gmap s) ?nx ?ny = CHR ''>'' \<and> exitOpen s)"
    using thiefArrive_win [OF live(2) nn ft fl] .
  have w1: "gameWon (thiefArrive ?s1 ?nx ?ny) = (tileAt (gmap s) ?nx ?ny = CHR ''>'' \<and> exitOpen s)"
    using thiefArrive_win [of ?s1 ?nx ?ny] live(2) nn ft fl by simp
  show ?thesis
  proof (cases "find (\<lambda>l. laser_x l = ?nx \<and> laser_y l = ?ny \<and> laser_active l) (lasers s) \<noteq> None
                \<and> invulnTimer (thief s) \<le> 0")
    case False
    then have "moveThief s dx dy = thiefArrive s ?nx ?ny"
      using live walk by (auto simp add: moveThief_def Let_def)
    with w0 show ?thesis by simp
  next
    case True
    then have "\<exists>l\<in>set (lasers s). laser_x l = ?nx \<and> laser_y l = ?ny \<and> laser_active l"
      by (auto simp add: find_None_set)
    with nofatal True have "\<not> hp (thief s) \<le> 1" by blast
    with True have "moveThief s dx dy = thiefArrive ?s1 ?nx ?ny"
      using live walk by (simp add: moveThief_def Let_def)
    with w1 show ?thesis by simp
  qed
qed

lemma guardVision_invuln:
  "0 < invulnTimer (thief s) \<Longrightarrow> guardVision g s = (g', s') \<Longrightarrow>
     hp (thief s') = hp (thief s) \<and> invulnTimer (thief s') = invulnTimer (thief s)"
  by (auto simp add: guardVision_def Let_def raiseAlarm_def split: if_splits)

lemma guardStep_invuln:
  "0 < invulnTimer (thief s) \<Longrightarrow> guardStep g s dt = (g', s') \<Longrightarrow>
     hp (thief s') = hp (thief s) \<and> invulnTimer (thief s') = invulnTimer (thief s)"
  by (auto simp add: guardStep_def Let_def split: if_splits dest: guardVision_invuln)

lemma guardLoop_invuln:
  "0 < invulnTimer (thief s) \<Longrightarrow> guardLoop gs s dt = (gs', s') \<Longrightarrow>
     hp (thief s') = hp (thief s) \<and> invulnTimer (thief s') = invulnTimer (thief s)"
proof (induction gs arbitrary: s gs' s')
  case Nil
  then show ?case by simp
next
  case (Cons g gs)
  obtain g1 s1 where st: "guardStep g s dt = (g1, s1)" by (cases "guardStep g s dt")
  obtain gs2 s2 where lp: "guardLoop gs s1 dt = (gs2, s2)" by (cases "guardLoop gs s1 dt")
  from Cons.prems st lp have e: "s' = s2" by simp
  from guardStep_invuln [OF Cons.prems(1) st]
  have k: "hp (thief s1) = hp (thief s)" "invulnTimer (thief s1) = invulnTimer (thief s)" by simp_all
  with Cons.prems(1) have "0 < invulnTimer (thief s1)" by simp
  from Cons.IH [OF this lp] k e show ?case by simp
qed

lemma cameraLoop_thief:
  "cameraLoop cs s dt = (cs', s') \<Longrightarrow>
     hp (thief s') = hp (thief s) \<and> invulnTimer (thief s') = invulnTimer (thief s)
   \<and> gameOver s' = gameOver s"
proof (induction cs arbitrary: s cs' s')
  case Nil
  then show ?case by simp
next
  case (Cons c cs)
  show ?case
  proof (cases "cam_active c")
    case False
    obtain a b where ab: "cameraLoop cs s dt = (a, b)" by (cases "cameraLoop cs s dt")
    with Cons.prems False have "s' = b" by simp
    with Cons.IH [OF ab] show ?thesis by simp
  next
    case True
    define c1 where "c1 = (if rotTimer c + dt \<ge> 4000 then c\<lparr>rotTimer := 0, cam_dir := (cam_dir c + 1) mod 4\<rparr>
                  else c\<lparr>rotTimer := rotTimer c + dt\<rparr>)"
    define s1 where "s1 = (if rayHits s (cam_x c1) (cam_y c1) (dirVecs ! cam_dir c1) [1..3] \<and> \<not> alarmActive s
                           then raiseAlarm s else s)"
    obtain a b where ab: "cameraLoop cs s1 dt = (a, b)" by (cases "cameraLoop cs s1 dt")
    with Cons.prems True have "s' = b" by (simp add: Let_def c1_def s1_def)
    moreover have "hp (thief s1) = hp (thief s) \<and> invulnTimer (thief s1) = invulnTimer (thief s)
       \<and> gameOver s1 = gameOver s" by (simp add: s1_def raiseAlarm_def)
    ultimately show ?thesis using Cons.IH [OF ab] by simp
  qed
qed

lemma updateGuards_invuln:
  assumes "0 < invulnTimer (thief s)"
  shows "hp (thief (updateGuards s dt)) = hp (thief s)"
proof -
  obtain gs s1 where gl: "guardLoop (guards s) s dt = (gs, s1)" by (cases "guardLoop (guards s) s dt")
  obtain cs s3 where cl: "cameraLoop (cameras (s1\<lparr>guards := gs\<rparr>)) (s1\<lparr>guards := gs\<rparr>) dt = (cs, s3)"
    by (cases "cameraLoop (cameras (s1\<lparr>guards := gs\<rparr>)) (s1\<lparr>guards := gs\<rparr>) dt")
  have "updateGuards s dt = s3\<lparr>cameras := cs\<rparr>"
    using gl cl by (simp add: updateGuards_def Let_def)
  with guardLoop_invuln [OF assms gl] cameraLoop_thief [OF cl] show ?thesis by simp
qed

lemma laserLoop_invuln:
  "0 < invulnTimer (thief s) \<Longrightarrow> laserLoop ls s dt = (ls', s') \<Longrightarrow>
     hp (thief s') = hp (thief s) \<and> invulnTimer (thief s') = invulnTimer (thief s)"
proof (induction ls arbitrary: s ls' s')
  case Nil
  then show ?case by simp
next
  case (Cons l ls)
  define l2 where "l2 = (if laser_timer l + dt \<ge> period l
       then l\<lparr>laser_timer := 0, laser_active := \<not> laser_active l\<rparr> else l\<lparr>laser_timer := laser_timer l + dt\<rparr>)"
  define s1 where "s1 = (if laser_timer l + dt \<ge> period l \<and> laser_active l2
       then s\<lparr>sounds := sounds s @ [''laser'']\<rparr> else s)"
  have k: "thief s1 = thief s" by (simp add: s1_def)
  obtain a b where ab: "laserLoop ls s1 dt = (a, b)" by (cases "laserLoop ls s1 dt")
  from Cons.prems(1) k have nd: "\<not> invulnTimer (thief s1) \<le> 0" by simp
  from Cons.prems(2) ab nd have "s' = b"
    by (simp add: Let_def l2_def s1_def split: if_splits)
  moreover from Cons.prems(1) k have "0 < invulnTimer (thief s1)" by simp
  ultimately show ?case using Cons.IH [OF _ ab] k by simp
qed

lemma updateLasers_invuln:
  assumes "0 < invulnTimer (thief s)"
  shows "hp (thief (updateLasers s dt)) = hp (thief s)"
proof -
  obtain a b where ab: "laserLoop (lasers s) s dt = (a, b)" by (cases "laserLoop (lasers s) s dt")
  from laserLoop_invuln [OF assms ab] ab show ?thesis by (simp add: updateLasers_def)
qed

lemma moveThief_invuln:
  assumes "0 < invulnTimer (thief s)"
  shows "hp (thief (moveThief s dx dy)) = hp (thief s)"
  using moveThief_cases [of s dx dy] assms thiefArrive_unlock [of s "tx (thief s) + dx" "ty (thief s) + dy"]
  by (auto simp add: Let_def)

lemma find_Some_set: "find P xs = Some x \<Longrightarrow> x \<in> set xs \<and> P x"
  by (induction xs) (auto split: if_splits)

lemma attract_level:
  "alertLevel (attract g s) = 2 \<Longrightarrow>
     alertLevel g = 2 \<or> (\<exists>d\<in>set (decoys s). decoyNear g d)"
  by (auto simp add: attract_def split: option.splits dest: find_Some_set)

lemma attract_level_le:
  "alertLevel g \<le> 2 \<Longrightarrow> alertLevel (attract g s) \<le> 2"
  by (auto simp add: attract_def split: option.splits)

lemma moveToward_level: "alertLevel (fst (moveToward g s t)) = alertLevel g"
  by (simp add: moveToward_def Let_def)

lemma cycleRoute_level: "alertLevel (cycleRoute g m t) = alertLevel g"
  by (simp add: cycleRoute_def)

lemma clearReached_level: "alertLevel (clearReached g) = alertLevel g"
  by (simp add: clearReached_def Let_def)

lemma decayAlert_level: "alertLevel (decayAlert g dt) = alertLevel g \<or> alertLevel (decayAlert g dt) = 0"
  by (simp add: decayAlert_def Let_def)

lemma guardThink_level:
  "alertLevel (guardThink g s dt) = 2 \<Longrightarrow>
     alertLevel g = 2 \<or> (\<exists>d\<in>set (decoys s). manhattan (eff_x d) (eff_y d) (gx g) (gy g) \<le> 6)"
proof -
  assume a: "alertLevel (guardThink g s dt) = 2"
  let ?g1 = "attract (g\<lparr>moveTimer := 0\<rparr>) s"
  obtain g2 moved where mt: "moveToward ?g1 s (chooseTarget ?g1) = (g2, moved)"
    by (cases "moveToward ?g1 s (chooseTarget ?g1)")
  have l2: "alertLevel g2 = alertLevel ?g1"
    using moveToward_level [of ?g1 s "chooseTarget ?g1"] mt by simp
  have gt: "guardThink g s dt = decayAlert (clearReached (cycleRoute g2 moved (chooseTarget ?g1))) dt"
    using mt by (simp add: guardThink_def Let_def)
  from a gt decayAlert_level [of "clearReached (cycleRoute g2 moved (chooseTarget ?g1))" dt]
  have "alertLevel (clearReached (cycleRoute g2 moved (chooseTarget ?g1))) = 2" by auto
  then have "alertLevel ?g1 = 2" by (simp add: clearReached_level cycleRoute_level l2)
  from attract_level [OF this] show ?thesis by (auto simp add: decoyNear_def)
qed

lemma guardThink_level_le:
  "alertLevel g \<le> 2 \<Longrightarrow> alertLevel (guardThink g s dt) \<le> 2"
proof -
  assume a: "alertLevel g \<le> 2"
  let ?g1 = "attract (g\<lparr>moveTimer := 0\<rparr>) s"
  obtain g2 moved where mt: "moveToward ?g1 s (chooseTarget ?g1) = (g2, moved)"
    by (cases "moveToward ?g1 s (chooseTarget ?g1)")
  have l2: "alertLevel g2 = alertLevel ?g1"
    using moveToward_level [of ?g1 s "chooseTarget ?g1"] mt by simp
  have gt: "guardThink g s dt = decayAlert (clearReached (cycleRoute g2 moved (chooseTarget ?g1))) dt"
    using mt by (simp add: guardThink_def Let_def)
  have "alertLevel ?g1 \<le> 2" using a by (intro attract_level_le) simp
  then show ?thesis
    using gt decayAlert_level [of "clearReached (cycleRoute g2 moved (chooseTarget ?g1))" dt]
    by (auto simp add: clearReached_level cycleRoute_level l2)
qed

lemma guardVision_level:
  "alertLevel (fst (guardVision g s)) =
     (if canSeeThief g s then 2
      else if manhattan (gx g) (gy g) (tx (thief s)) (ty (thief s)) \<le> 2 \<and> alertLevel g = 0
              \<and> sprinting (thief s) then 1
      else alertLevel g)"
  by (simp add: guardVision_def Let_def)

lemma guardStep_level:
  assumes "alertLevel g = 0"
  shows "(alertLevel (fst (guardStep g s dt)) = 2 \<longrightarrow>
            (\<exists>d\<in>set (decoys s). manhattan (eff_x d) (eff_y d) (gx g) (gy g) \<le> 6)
          \<or> canSeeThief (guardThink (g\<lparr>moveTimer := moveTimer g + dt\<rparr>) s dt) s)
       \<and> alertLevel (fst (guardStep g s dt)) \<le> 2"
proof (cases "frozen g \<or> of_int (moveTimer g + dt) < effectiveSpeed (g\<lparr>moveTimer := moveTimer g + dt\<rparr>)")
  case True
  then have "alertLevel (fst (guardStep g s dt)) = 0"
    using assms by (auto simp add: guardStep_def Let_def)
  then show ?thesis by simp
next
  case False
  let ?g1 = "g\<lparr>moveTimer := moveTimer g + dt\<rparr>"
  let ?g2 = "guardThink ?g1 s dt"
  from False have gs: "guardStep g s dt = guardVision ?g2 s"
    by (simp add: guardStep_def Let_def)
  have le: "alertLevel ?g2 \<le> 2" using assms by (intro guardThink_level_le) simp
  have th: "alertLevel ?g2 = 2 \<Longrightarrow> (\<exists>d\<in>set (decoys s). manhattan (eff_x d) (eff_y d) (gx g) (gy g) \<le> 6)"
    using guardThink_level [of ?g1 s dt] assms by simp
  show ?thesis
    unfolding gs guardVision_level using le th by (auto split: if_splits)
qed

subsection \<open>Evaluation on concrete states\<close>

lemmas demo_defs = baseState_def baseThief_def baseDrone_def baseGuard_def

lemmas move_defs = moveThief_def thiefArrive_def stepTripwire_def stepLoot_def
  stepSafes_def stepExit_def isWalkable_def tileAt_def setTile_def

lemmas guard_defs = guardStep_def guardThink_def guardVision_def attract_def chooseTarget_def
  moveToward_def cycleRoute_def clearReached_def decayAlert_def canSeeThief_def effectiveSpeed_def
  noiseNear_def decoyNear_def manhattan_def dirVecs_def isWalkable_def isBlockedForVision_def
  tileAt_def raiseAlarm_def contactDamage_def

lemma upto_1_3: "[1..3] = [1, 2, 3::int]"
  by (simp add: upto.simps)

lemma upto_1_5: "[1..5] = [1, 2, 3, 4, 5::int]"
  by (simp add: upto.simps)

text \<open>The tick as a composition of its updates, for evaluation from the inside out.\<close>

lemma tickState_unfold:
  "tickState s dt =
     (let s8 = updateEffects (updateLasers (updateInvuln (updateDroneCharge (updateAlarm
                 (updateGuards (updatePickLock (s\<lparr>timer := timer s + dt\<rparr>) dt) dt) dt) dt) dt) dt) dt
      in if alarmActive s8 \<and> (timer s8 div 500) mod 2 = 0 \<and> ((timer s8 - dt) div 500) mod 2 \<noteq> 0
         then s8\<lparr>sounds := sounds s8 @ [''alarm'']\<rparr> else s8)"
  by (simp add: tickState_def Let_def)

lemmas tick_defs = tickState_unfold updatePickLock_def updateGuards_def updateAlarm_def
  updateDroneCharge_def updateInvuln_def updateLasers_def updateEffects_def expire_def
  upto_1_3 upto_1_5

lemma serverTicks_add: "serverTicks (m + n) room = serverTicks n (serverTicks m room)"
  by (induction m arbitrary: room) simp_all

text \<open>The alerted guard of \<open>alertDemo\<close>: two ticks in which only its movement timer
  advances, then one in which it thinks and its alert timer loses 100.\<close>

lemma alert_wait:
  "m + 100 < 225 \<Longrightarrow> tickState (alertDemo a m tm) 100 = alertDemo a (m + 100) (tm + 100)"
  by (simp add: alertDemo_def demo_defs guard_defs tick_defs Let_def)

lemma alert_think:
  "225 \<le> m + 100 \<Longrightarrow> 100 < a \<Longrightarrow>
     tickState (alertDemo a m tm) 100 = alertDemo (a - 100) 0 (tm + 100)"
  by (simp add: alertDemo_def demo_defs guard_defs tick_defs Let_def)

lemma alertRoom_tick:
  "broadcastState (tickRoom (alertRoom a m tm) 100) =
     \<lparr>gameState = Some ((tickState (alertDemo a m tm) 100)\<lparr>sounds := [], shakeEvents := []\<rparr>),
      paused = False\<rparr>"
  by (simp add: alertRoom_def tickRoom_def broadcastState_def alertDemo_def baseState_def)

lemma alertDemo_quiet: "(alertDemo a m tm)\<lparr>sounds := [], shakeEvents := []\<rparr> = alertDemo a m tm"
  by (simp add: alertDemo_def baseState_def)

lemma alertRoom_round:
  assumes "100 < a"
  shows "serverTicks 3 (alertRoom a 0 tm) = alertRoom (a - 100) 0 (tm + 300)"
proof -
  have w1: "tickState (alertDemo a 0 tm) 100 = alertDemo a 100 (tm + 100)"
    using alert_wait [of 0 a tm] by simp
  have w2: "tickState (alertDemo a 100 (tm + 100)) 100 = alertDemo a 200 (tm + 200)"
    using alert_wait [of 100 a "tm + 100"] by (simp add: algebra_simps)
  have w3: "tickState (alertDemo a 200 (tm + 200)) 100 = alertDemo (a - 100) 0 (tm + 300)"
    using alert_think [of 200 a "tm + 200"] assms by (simp add: algebra_simps)
  have 1: "broadcastState (tickRoom (alertRoom a 0 tm) 100) = alertRoom a 100 (tm + 100)"
    by (subst alertRoom_tick) (simp only: w1 alertDemo_quiet alertRoom_def)
  have 2: "broadcastState (tickRoom (alertRoom a 100 (tm + 100)) 100) = alertRoom a 200 (tm + 200)"
    by (subst alertRoom_tick) (simp only: w2 alertDemo_quiet alertRoom_def)
  have 3: "broadcastState (tickRoom (alertRoom a 200 (tm + 200)) 100) = alertRoom (a - 100) 0 (tm + 300)"
    by (subst alertRoom_tick) (simp only: w3 alertDemo_quiet alertRoom_def)
  have "serverTicks 3 (alertRoom a 0 tm) =
        broadcastState (tickRoom (broadcastState (tickRoom (broadcastState
          (tickRoom (alertRoom a 0 tm) 100)) 100)) 100)"
    by (simp add: eval_nat_numeral)
  then show ?thesis by (simp only: 1 2 3)
qed

lemma alertRoom_rounds:
  "100 * int k < a \<Longrightarrow>
     serverTicks (3 * k) (alertRoom a 0 tm) = alertRoom (a - 100 * int k) 0 (tm + 300 * int k)"
proof (induction k arbitrary: a tm)
  case 0
  then show ?case by simp
next
  case (Suc k)
  from Suc.prems have a: "100 < a" and b: "100 * int k < a - 100" by simp_all
  have "serverTicks (3 * Suc k) (alertRoom a 0 tm) =
        serverTicks (3 * k) (serverTicks 3 (alertRoom a 0 tm))"
    using serverTicks_add [of 3 "3 * k" "alertRoom a 0 tm"] by (simp add: add.commute)
  also have "\<dots> = serverTicks (3 * k) (alertRoom (a - 100) 0 (tm + 300))"
    by (simp add: alertRoom_round [OF a])
  also have "\<dots> = alertRoom (a - 100 - 100 * int k) 0 (tm + 300 + 300 * int k)"
    by (rule Suc.IH [OF b])
  finally show ?case by (simp add: algebra_simps)
qed

subsection \<open>What the arrival on a tile leaves alone\<close>

lemma safeLoop_sounds:
  "safeLoop sfs s nx ny = (sfs', s') \<Longrightarrow> \<exists>ys. sounds s' = sounds s @ ys"
proof (induction sfs arbitrary: s sfs' s')
  case Nil
  then show ?case by simp
next
  case (Cons sf sfs)
  show ?case
  proof (cases "\<not> safe_open sf \<and> \<bar>nx - safe_x sf\<bar> + \<bar>ny - safe_y sf\<bar> = 1
                \<and> drx (drone s) = safe_x sf \<and> dry (drone s) = safe_y sf")
    case True
    let ?s1 = "s\<lparr>gmap := setTile (gmap s) (safe_x sf) (safe_y sf) CHR ''.'',
                  score := score s + lootValue sf, sounds := sounds s @ [''loot'', ''hack'']\<rparr>"
    obtain a b where ab: "safeLoop sfs ?s1 nx ny = (a, b)" by (cases "safeLoop sfs ?s1 nx ny")
    with Cons.prems True have "s' = b" by (simp add: Let_def)
    with Cons.IH [OF ab] show ?thesis by auto
  next
    case False
    obtain a b where ab: "safeLoop sfs s nx ny = (a, b)" by (cases "safeLoop sfs s nx ny")
    with Cons.prems False have "s' = b" by (auto simp add: Let_def split: if_splits)
    with Cons.IH [OF ab] show ?thesis by simp
  qed
qed

lemma stepTripwire_thief:
  "tx (thief (stepTripwire s nx ny)) = tx (thief s)
   \<and> ty (thief (stepTripwire s nx ny)) = ty (thief s)
   \<and> hp (thief (stepTripwire s nx ny)) = hp (thief s)
   \<and> invulnTimer (thief (stepTripwire s nx ny)) = invulnTimer (thief s)
   \<and> gameOver (stepTripwire s nx ny) = gameOver s
   \<and> (\<exists>ys. sounds (stepTripwire s nx ny) = sounds s @ ys)"
  by (simp add: stepTripwire_def Let_def split: option.splits)

lemma stepLoot_thief:
  "tx (thief (stepLoot s nx ny)) = tx (thief s)
   \<and> ty (thief (stepLoot s nx ny)) = ty (thief s)
   \<and> hp (thief (stepLoot s nx ny)) = hp (thief s)
   \<and> invulnTimer (thief (stepLoot s nx ny)) = invulnTimer (thief s)
   \<and> gameOver (stepLoot s nx ny) = gameOver s
   \<and> (\<exists>ys. sounds (stepLoot s nx ny) = sounds s @ ys)"
  by (simp add: stepLoot_def Let_def split: option.splits)

lemma stepSafes_thief:
  "thief (stepSafes s nx ny) = thief s
   \<and> gameOver (stepSafes s nx ny) = gameOver s
   \<and> (\<exists>ys. sounds (stepSafes s nx ny) = sounds s @ ys)"
proof -
  obtain a b where ab: "safeLoop (safes s) s nx ny = (a, b)" by (cases "safeLoop (safes s) s nx ny")
  from safeLoop_frame [OF ab] safeLoop_sounds [OF ab] ab show ?thesis
    by (simp add: stepSafes_def)
qed

lemma stepExit_thief:
  "thief (stepExit s nx ny) = thief s
   \<and> gameOver (stepExit s nx ny) = gameOver s
   \<and> (\<exists>ys. sounds (stepExit s nx ny) = sounds s @ ys)"
proof (cases "tileAt (gmap s) nx ny = CHR ''>'' \<and> exitOpen s")
  case False
  then show ?thesis by (auto simp add: stepExit_def)
next
  case True
  let ?s5 = "(if \<not> alertTriggered s then
        s\<lparr>gameWon := True, score := score s + primaryLootCollected s * 1000 + bonusLootCollected s * 500
              + max 0 (3000 - timer s div 1000 * 10) + 2000\<rparr>
       else s\<lparr>gameWon := True, score := score s + primaryLootCollected s * 1000 + bonusLootCollected s * 500
              + max 0 (3000 - timer s div 1000 * 10)\<rparr>)"
  obtain a b where ab: "scoreObjectives (objectives ?s5) ?s5 = (a, b)"
    by (cases "scoreObjectives (objectives ?s5) ?s5")
  from scoreObjectives_frame [OF ab] have fr: "thief b = thief ?s5" "gameOver b = gameOver ?s5"
    "sounds b = sounds ?s5" by simp_all
  have "stepExit s nx ny = b\<lparr>objectives := a, sounds := sounds b @ [''victory'']\<rparr>"
    using True ab by (simp add: stepExit_def Let_def split: if_splits)
  with fr show ?thesis by (simp split: if_splits)
qed

text \<open>After the arrival the thief stands on the new tile, with the hit points, the
  invulnerability timer and the loss flag it arrived with; the sounds of the arrival
  follow the \<open>move\<close> sound.\<close>

lemma thiefArrive_arrives:
  "tx (thief (thiefArrive s nx ny)) = nx \<and> ty (thief (thiefArrive s nx ny)) = ny
   \<and> hp (thief (thiefArrive s nx ny)) = hp (thief s)
   \<and> invulnTimer (thief (thiefArrive s nx ny)) = invulnTimer (thief s)
   \<and> gameOver (thiefArrive s nx ny) = gameOver s
   \<and> (\<exists>ys. sounds (thiefArrive s nx ny) = sounds s @ ''move'' # ys)"
proof -
  let ?s1 = "s\<lparr>thief := (thief s)\<lparr>tx := nx, ty := ny\<rparr>, sounds := sounds s @ [''move'']\<rparr>"
  let ?s2 = "stepTripwire ?s1 nx ny"
  let ?s3 = "stepLoot ?s2 nx ny"
  let ?s4 = "stepSafes ?s3 nx ny"
  let ?s5 = "stepExit ?s4 nx ny"
  have e: "thiefArrive s nx ny = ?s5" by (simp add: thiefArrive_def Let_def)
  note a = stepTripwire_thief [of ?s1 nx ny] and b = stepLoot_thief [of ?s2 nx ny]
    and c = stepSafes_thief [of ?s3 nx ny] and d = stepExit_thief [of ?s4 nx ny]
  from a obtain y2 where y2: "sounds ?s2 = sounds ?s1 @ y2" by blast
  from b obtain y3 where y3: "sounds ?s3 = sounds ?s2 @ y3" by blast
  from c obtain y4 where y4: "sounds ?s4 = sounds ?s3 @ y4" by blast
  from d obtain y5 where y5: "sounds ?s5 = sounds ?s4 @ y5" by blast
  have snd: "sounds ?s5 = sounds s @ ''move'' # (y2 @ y3 @ y4 @ y5)"
    unfolding y5 y4 y3 y2 by simp
  have th: "tx (thief ?s5) = nx" "ty (thief ?s5) = ny" "hp (thief ?s5) = hp (thief s)"
    "invulnTimer (thief ?s5) = invulnTimer (thief s)" "gameOver ?s5 = gameOver s"
    using a b c d by simp_all
  show ?thesis unfolding e using th snd by blast
qed

subsection \<open>The invulnerability timer through a tick\<close>

lemma updatePickLock_thief:
  "hp (thief (updatePickLock s dt)) = hp (thief s)
   \<and> invulnTimer (thief (updatePickLock s dt)) = invulnTimer (thief s)"
  by (simp add: updatePickLock_def Let_def split: option.splits)

lemma updateGuards_invuln_timer:
  assumes "0 < invulnTimer (thief s)"
  shows "invulnTimer (thief (updateGuards s dt)) = invulnTimer (thief s)"
proof -
  obtain gs s1 where gl: "guardLoop (guards s) s dt = (gs, s1)" by (cases "guardLoop (guards s) s dt")
  obtain cs s3 where cl: "cameraLoop (cameras (s1\<lparr>guards := gs\<rparr>)) (s1\<lparr>guards := gs\<rparr>) dt = (cs, s3)"
    by (cases "cameraLoop (cameras (s1\<lparr>guards := gs\<rparr>)) (s1\<lparr>guards := gs\<rparr>) dt")
  have "updateGuards s dt = s3\<lparr>cameras := cs\<rparr>"
    using gl cl by (simp add: updateGuards_def Let_def)
  with guardLoop_invuln [OF assms gl] cameraLoop_thief [OF cl] show ?thesis by simp
qed

lemma updateAlarm_thief:
  "hp (thief (updateAlarm s dt)) =
     (if alarmActive s \<and> alarmTimer s - dt \<le> 0 then hp (thief s) - 1 else hp (thief s))
   \<and> invulnTimer (thief (updateAlarm s dt)) = invulnTimer (thief s)"
  by (simp add: updateAlarm_def Let_def)

lemma updateDroneCharge_thief: "thief (updateDroneCharge s dt) = thief s"
  by (simp add: updateDroneCharge_def Let_def)

lemma updateEffects_thief:
  "hp (thief (updateEffects s dt)) = hp (thief s)
   \<and> invulnTimer (thief (updateEffects s dt)) = invulnTimer (thief s)"
  by (simp add: updateEffects_def Let_def split: option.splits)

text \<open>A tick that starts inside the invulnerability window, with more than the tick's
  \<open>dt\<close> left on the timer: the only hit point it can take is that of the alarm expiry.\<close>

lemma tickState_invuln:
  assumes p: "0 < invulnTimer (thief s)" and d: "dt < invulnTimer (thief s)"
  shows "hp (thief (tickState s dt)) =
     (let s3 = updateGuards (updatePickLock (s\<lparr>timer := timer s + dt\<rparr>) dt) dt
      in if alarmActive s3 \<and> alarmTimer s3 - dt \<le> 0 then hp (thief s) - 1 else hp (thief s))"
proof -
  let ?s2 = "updatePickLock (s\<lparr>timer := timer s + dt\<rparr>) dt"
  let ?s3 = "updateGuards ?s2 dt"
  let ?s4 = "updateAlarm ?s3 dt"
  let ?s5 = "updateDroneCharge ?s4 dt"
  let ?s6 = "updateInvuln ?s5 dt"
  let ?s7 = "updateLasers ?s6 dt"
  let ?s8 = "updateEffects ?s7 dt"
  have t2: "hp (thief ?s2) = hp (thief s)" "invulnTimer (thief ?s2) = invulnTimer (thief s)"
    using updatePickLock_thief [of "s\<lparr>timer := timer s + dt\<rparr>" dt] by simp_all
  have p2: "0 < invulnTimer (thief ?s2)" using p t2 by simp
  have t3: "hp (thief ?s3) = hp (thief s)" "invulnTimer (thief ?s3) = invulnTimer (thief s)"
    using updateGuards_invuln [OF p2, of dt] updateGuards_invuln_timer [OF p2, of dt] t2 by simp_all
  have t4: "hp (thief ?s4) =
      (if alarmActive ?s3 \<and> alarmTimer ?s3 - dt \<le> 0 then hp (thief s) - 1 else hp (thief s))"
    "invulnTimer (thief ?s4) = invulnTimer (thief s)"
    using updateAlarm_thief [of ?s3 dt] t3 by simp_all
  have t5: "thief ?s5 = thief ?s4" by (rule updateDroneCharge_thief)
  have t6: "hp (thief ?s6) = hp (thief ?s4)" "invulnTimer (thief ?s6) = invulnTimer (thief s) - dt"
    using p t4(2) t5 by (simp_all add: updateInvuln_def)
  have p6: "0 < invulnTimer (thief ?s6)" using t6(2) d by simp
  have t7: "hp (thief ?s7) = hp (thief ?s4)"
    using updateLasers_invuln [OF p6, of dt] t6(1) by simp
  have t8: "hp (thief ?s8) = hp (thief ?s4)"
    using updateEffects_thief [of ?s7 dt] t7 by simp
  have "hp (thief (tickState s dt)) = hp (thief ?s8)"
    by (simp add: tickState_unfold Let_def)
  then show ?thesis using t8 t4(1) by (simp add: Let_def)
qed

text \<open>Outside the window, a laser under the thief takes one hit point; the hit starts a
  window that shields the thief from the lasers after it in the list.\<close>

lemma laserLoop_hit:
  "invulnTimer (thief s) \<le> 0 \<Longrightarrow> \<exists>l\<in>set ls. laserOn s dt l \<Longrightarrow>
     laserLoop ls s dt = (ls', s') \<Longrightarrow> hp (thief s') = hp (thief s) - 1"
proof (induction ls arbitrary: s ls' s')
  case Nil
  then show ?case by simp
next
  case (Cons l ls)
  define l2 where "l2 = (if laser_timer l + dt \<ge> period l
       then l\<lparr>laser_timer := 0, laser_active := \<not> laser_active l\<rparr> else l\<lparr>laser_timer := laser_timer l + dt\<rparr>)"
  define s1 where "s1 = (if laser_timer l + dt \<ge> period l \<and> laser_active l2
       then s\<lparr>sounds := sounds s @ [''laser'']\<rparr> else s)"
  have k: "thief s1 = thief s" by (simp add: s1_def)
  have on: "laserOn s dt l = (laser_active l2 \<and> laser_x l2 = tx (thief s1) \<and> laser_y l2 = ty (thief s1))"
    by (auto simp add: laserOn_def l2_def k)
  show ?case
  proof (cases "laserOn s dt l")
    case True
    define s2 where "s2 = contactDamage s1 3"
    obtain a b where ab: "laserLoop ls s2 dt = (a, b)" by (cases "laserLoop ls s2 dt")
    have h2: "hp (thief s2) = hp (thief s) - 1" "0 < invulnTimer (thief s2)"
      by (simp_all add: s2_def contactDamage_def Let_def k)
    from Cons.prems(1,3) True on ab k have "s' = b"
      by (simp add: Let_def l2_def s1_def s2_def split: if_splits)
    with laserLoop_invuln [OF h2(2) ab] h2(1) show ?thesis by simp
  next
    case False
    obtain a b where ab: "laserLoop ls s1 dt = (a, b)" by (cases "laserLoop ls s1 dt")
    from Cons.prems(3) False on ab have e: "s' = b"
      by (simp add: Let_def l2_def s1_def split: if_splits)
    from Cons.prems(2) False have "\<exists>l\<in>set ls. laserOn s dt l" by simp
    then have ex: "\<exists>l\<in>set ls. laserOn s1 dt l" by (simp add: laserOn_def k)
    from Cons.prems(1) k have "invulnTimer (thief s1) \<le> 0" by simp
    from Cons.IH [OF this ex ab] e k show ?thesis by simp
  qed
qed

lemma updateLasers_hit:
  assumes "invulnTimer (thief s) \<le> 0" and "\<exists>l\<in>set (lasers s). laserOn s dt l"
  shows "hp (thief (updateLasers s dt)) = hp (thief s) - 1"
proof -
  obtain a b where ab: "laserLoop (lasers s) s dt = (a, b)" by (cases "laserLoop (lasers s) s dt")
  from laserLoop_hit [OF assms ab] ab show ?thesis by (simp add: updateLasers_def)
qed

lemma updateInvuln_timer:
  "invulnTimer (thief (updateInvuln s dt)) =
     (if 0 < invulnTimer (thief s) then invulnTimer (thief s) - dt else invulnTimer (thief s))
   \<and> hp (thief (updateInvuln s dt)) = hp (thief s)"
  by (simp add: updateInvuln_def)

subsection \<open>Grids and connectivity\<close>



















subsection \<open>Room placement\<close>















subsection \<open>Corridors\<close>
















subsection \<open>Doors\<close>






subsection \<open>Floor tiles and picking\<close>









subsection \<open>Placement keeps the set of tiles that are not walls\<close>




subsection \<open>Placement leaves the tiles outside the floor list alone\<close>











subsection \<open>The generated level is connected\<close>










subsection \<open>Walking with every door and safe open\<close>







subsection \<open>The generator phase by phase\<close>


subsection \<open>The level drawn from \<open>safeRnd\<close>\<close>











































subsection \<open>The floor tile behind the two safes\<close>





section \<open>Alarm expiry (C4)\<close>

text \<open>
  C4. When the alarm is active and its countdown reaches zero in an update
  (\<open>alarmTimer - dt \<le> 0\<close>), updateAlarm takes exactly one hit point from the thief,
  clears the active flag and resets the timer to 0, all in that update.
\<close>

theorem updateAlarm_expiry:
  assumes "alarmActive s" and "alarmTimer s - dt \<le> 0"
  shows "hp (thief (updateAlarm s dt)) = hp (thief s) - 1
       \<and> \<not> alarmActive (updateAlarm s dt) \<and> alarmTimer (updateAlarm s dt) = 0"
  using assms by (simp add: updateAlarm_def Let_def)

theorem updateAlarm_expiry_witness:
  "alarmActive alarmDemo \<and> alarmTimer alarmDemo - 100 \<le> 0
   \<and> hp (thief alarmDemo) = 3
   \<and> hp (thief (updateAlarm alarmDemo 100)) = 2
   \<and> \<not> alarmActive (updateAlarm alarmDemo 100) \<and> alarmTimer (updateAlarm alarmDemo 100) = 0"
proof -
  have h1: "alarmActive alarmDemo" by (simp add: alarmDemo_def)
  have h2: "alarmTimer alarmDemo - 100 \<le> 0" by (simp add: alarmDemo_def)
  have h3: "hp (thief alarmDemo) = 3" by (simp add: alarmDemo_def baseState_def baseThief_def)
  show ?thesis using updateAlarm_expiry [OF h1 h2] h1 h2 h3 by simp
qed

section \<open>A move onto an active laser (C9)\<close>

text \<open>
  C9, as stated, fails: not every move intent towards an active laser is hit by it.
  moveThief returns at once while the thief is picking a lock (and when the game is
  over or won). In \<open>pickingDemo\<close> the thief, with one hit point and no
  invulnerability, is picking the door to its west; the intent to step east onto the
  active laser, a walkable tile, changes nothing: no damage, no \<open>gameOver\<close>.
\<close>

theorem moveThief_picking_counterexample:
  "isWalkable pickingDemo (tx (thief pickingDemo) + 1) (ty (thief pickingDemo) + 0)
   \<and> map (\<lambda>l. (laser_x l, laser_y l, laser_active l)) (lasers pickingDemo)
        = [(tx (thief pickingDemo) + 1, ty (thief pickingDemo) + 0, True)]
   \<and> invulnTimer (thief pickingDemo) = 0
   \<and> hp (thief pickingDemo) = 1
   \<and> \<not> gameOver pickingDemo \<and> \<not> gameWon pickingDemo
   \<and> moveThief pickingDemo 1 0 = pickingDemo
   \<and> hp (thief (moveThief pickingDemo 1 0)) = 1
   \<and> \<not> gameOver (moveThief pickingDemo 1 0)"
  by (simp add: pickingDemo_def demo_defs moveThief_def isWalkable_def tileAt_def)

text \<open>
  C9, amended. A move intent is rejected, leaving the state unchanged, when the game is
  over or won, the thief is picking a lock, or the destination is not walkable. For an
  accepted intent (none of these) whose destination holds an active laser while the
  thief is not invulnerable (\<open>invulnTimer \<le> 0\<close>), the damage is applied before the
  position update. When it is fatal (\<open>hp\<close> drops to 0 or below) the function returns
  at once: the state differs from the old one only in \<open>hp\<close>, \<open>invulnTimer\<close>, the two
  sound and two shake events and \<open>gameOver\<close>, so the thief stays on the tile it came
  from and no tripwire, loot, safe or exit processing has run. When it is not fatal,
  the arrival (position update, then tripwire, loot, safes, exit) runs on the damaged
  state: the thief ends on the destination with one hit point less and the
  invulnerability timer at 1500, the game is not lost, and the \<open>hit\<close> sound precedes
  the \<open>move\<close> sound.
\<close>

theorem moveThief_laser:
  "(gameOver s \<or> gameWon s \<or> picking (thief s)
      \<or> \<not> isWalkable s (tx (thief s) + dx) (ty (thief s) + dy)
     \<longrightarrow> moveThief s dx dy = s)
   \<and> (\<not> gameOver s \<and> \<not> gameWon s \<and> \<not> picking (thief s)
      \<and> isWalkable s (tx (thief s) + dx) (ty (thief s) + dy)
      \<and> (\<exists>l\<in>set (lasers s). laser_x l = tx (thief s) + dx
             \<and> laser_y l = ty (thief s) + dy \<and> laser_active l)
      \<and> invulnTimer (thief s) \<le> 0
     \<longrightarrow> (hp (thief s) \<le> 1 \<longrightarrow>
            moveThief s dx dy =
              s\<lparr>thief := (thief s)\<lparr>hp := hp (thief s) - 1, invulnTimer := 1500\<rparr>,
                sounds := sounds s @ [''hit'', ''gameOver''],
                shakeEvents := shakeEvents s @ [\<lparr>intensity = 3, duration = 300\<rparr>,
                                                \<lparr>intensity = 8, duration = 500\<rparr>],
                gameOver := True\<rparr>)
         \<and> (1 < hp (thief s) \<longrightarrow>
            moveThief s dx dy =
              thiefArrive
                (s\<lparr>thief := (thief s)\<lparr>hp := hp (thief s) - 1, invulnTimer := 1500\<rparr>,
                   sounds := sounds s @ [''hit''],
                   shakeEvents := shakeEvents s @ [\<lparr>intensity = 3, duration = 300\<rparr>]\<rparr>)
                (tx (thief s) + dx) (ty (thief s) + dy)
            \<and> hp (thief (moveThief s dx dy)) = hp (thief s) - 1
            \<and> invulnTimer (thief (moveThief s dx dy)) = 1500
            \<and> tx (thief (moveThief s dx dy)) = tx (thief s) + dx
            \<and> ty (thief (moveThief s dx dy)) = ty (thief s) + dy
            \<and> \<not> gameOver (moveThief s dx dy)
            \<and> (\<exists>ys. sounds (moveThief s dx dy) = sounds s @ ''hit'' # ''move'' # ys)))"
proof -
  let ?nx = "tx (thief s) + dx" and ?ny = "ty (thief s) + dy"
  let ?s1 = "s\<lparr>thief := (thief s)\<lparr>hp := hp (thief s) - 1, invulnTimer := 1500\<rparr>,
                   sounds := sounds s @ [''hit''],
                   shakeEvents := shakeEvents s @ [\<lparr>intensity = 3, duration = 300\<rparr>]\<rparr>"
  have a: "moveThief s dx dy = s"
    if "gameOver s \<or> gameWon s \<or> picking (thief s) \<or> \<not> isWalkable s ?nx ?ny"
    using that by (auto simp add: moveThief_def Let_def)
  have f: "find (\<lambda>l. laser_x l = ?nx \<and> laser_y l = ?ny \<and> laser_active l) (lasers s) \<noteq> None"
    if "\<exists>l\<in>set (lasers s). laser_x l = ?nx \<and> laser_y l = ?ny \<and> laser_active l"
    using that by (auto simp add: find_None_set)
  have b: "moveThief s dx dy =
              s\<lparr>thief := (thief s)\<lparr>hp := hp (thief s) - 1, invulnTimer := 1500\<rparr>,
                sounds := sounds s @ [''hit'', ''gameOver''],
                shakeEvents := shakeEvents s @ [\<lparr>intensity = 3, duration = 300\<rparr>,
                                                \<lparr>intensity = 8, duration = 500\<rparr>],
                gameOver := True\<rparr>"
    if "\<not> gameOver s \<and> \<not> gameWon s \<and> \<not> picking (thief s) \<and> isWalkable s ?nx ?ny
        \<and> (\<exists>l\<in>set (lasers s). laser_x l = ?nx \<and> laser_y l = ?ny \<and> laser_active l)
        \<and> invulnTimer (thief s) \<le> 0" and "hp (thief s) \<le> 1"
    using that f by (simp add: moveThief_def Let_def)
  have c: "moveThief s dx dy = thiefArrive ?s1 ?nx ?ny
         \<and> hp (thief (moveThief s dx dy)) = hp (thief s) - 1
         \<and> invulnTimer (thief (moveThief s dx dy)) = 1500
         \<and> tx (thief (moveThief s dx dy)) = ?nx
         \<and> ty (thief (moveThief s dx dy)) = ?ny
         \<and> \<not> gameOver (moveThief s dx dy)
         \<and> (\<exists>ys. sounds (moveThief s dx dy) = sounds s @ ''hit'' # ''move'' # ys)"
    if h: "\<not> gameOver s \<and> \<not> gameWon s \<and> \<not> picking (thief s) \<and> isWalkable s ?nx ?ny
        \<and> (\<exists>l\<in>set (lasers s). laser_x l = ?nx \<and> laser_y l = ?ny \<and> laser_active l)
        \<and> invulnTimer (thief s) \<le> 0" and n: "1 < hp (thief s)"
  proof -
    have e: "moveThief s dx dy = thiefArrive ?s1 ?nx ?ny"
      using h n f by (simp add: moveThief_def Let_def)
    from thiefArrive_arrives [of ?s1 ?nx ?ny] h show ?thesis unfolding e by simp
  qed
  from a b c show ?thesis by blast
qed

theorem moveThief_laser_witness:
  "isWalkable laserDemo 2 1 \<and> hp (thief laserDemo) = 1
   \<and> gameOver (moveThief laserDemo 1 0)
   \<and> tx (thief (moveThief laserDemo 1 0)) = 1 \<and> ty (thief (moveThief laserDemo 1 0)) = 1
   \<and> hp (thief (moveThief laserDemo 1 0)) = 0
   \<and> sounds (moveThief laserDemo 1 0) = [''hit'', ''gameOver'']
   \<and> isWalkable laserHitDemo 2 1 \<and> hp (thief laserHitDemo) = 3
   \<and> \<not> gameOver (moveThief laserHitDemo 1 0)
   \<and> tx (thief (moveThief laserHitDemo 1 0)) = 2 \<and> ty (thief (moveThief laserHitDemo 1 0)) = 1
   \<and> hp (thief (moveThief laserHitDemo 1 0)) = 2
   \<and> invulnTimer (thief (moveThief laserHitDemo 1 0)) = 1500
   \<and> (\<exists>ys. sounds (moveThief laserHitDemo 1 0) = ''hit'' # ''move'' # ys)
   \<and> picking (thief pickingDemo) \<and> moveThief pickingDemo 1 0 = pickingDemo"
proof -
  have a1: "\<not> gameOver laserDemo \<and> \<not> gameWon laserDemo \<and> \<not> picking (thief laserDemo)
      \<and> isWalkable laserDemo (tx (thief laserDemo) + 1) (ty (thief laserDemo) + 0)
      \<and> (\<exists>l\<in>set (lasers laserDemo). laser_x l = tx (thief laserDemo) + 1
             \<and> laser_y l = ty (thief laserDemo) + 0 \<and> laser_active l)
      \<and> invulnTimer (thief laserDemo) \<le> 0"
    by (simp add: laserDemo_def demo_defs isWalkable_def tileAt_def)
  have a2: "\<not> gameOver laserHitDemo \<and> \<not> gameWon laserHitDemo \<and> \<not> picking (thief laserHitDemo)
      \<and> isWalkable laserHitDemo (tx (thief laserHitDemo) + 1) (ty (thief laserHitDemo) + 0)
      \<and> (\<exists>l\<in>set (lasers laserHitDemo). laser_x l = tx (thief laserHitDemo) + 1
             \<and> laser_y l = ty (thief laserHitDemo) + 0 \<and> laser_active l)
      \<and> invulnTimer (thief laserHitDemo) \<le> 0"
    by (simp add: laserHitDemo_def laserDemo_def demo_defs isWalkable_def tileAt_def)
  have t: "thief laserDemo = baseThief\<lparr>hp := 1\<rparr>" "thief laserHitDemo = baseThief"
    "sounds laserDemo = []" "sounds laserHitDemo = []"
    by (simp_all add: laserHitDemo_def laserDemo_def baseState_def)
  have f1: "hp (thief laserDemo) \<le> 1" and n2: "1 < hp (thief laserHitDemo)"
    by (simp_all add: t baseThief_def)
  have p: "picking (thief pickingDemo)" by (simp add: pickingDemo_def)
  from moveThief_laser [of laserDemo 1 0] a1 f1
  have r1: "moveThief laserDemo 1 0 =
      laserDemo\<lparr>thief := (thief laserDemo)\<lparr>hp := hp (thief laserDemo) - 1, invulnTimer := 1500\<rparr>,
        sounds := sounds laserDemo @ [''hit'', ''gameOver''],
        shakeEvents := shakeEvents laserDemo @ [\<lparr>intensity = 3, duration = 300\<rparr>,
                                                \<lparr>intensity = 8, duration = 500\<rparr>],
        gameOver := True\<rparr>"
    by blast
  from moveThief_laser [of laserHitDemo 1 0] a2 n2
  have r2: "hp (thief (moveThief laserHitDemo 1 0)) = hp (thief laserHitDemo) - 1
      \<and> invulnTimer (thief (moveThief laserHitDemo 1 0)) = 1500
      \<and> tx (thief (moveThief laserHitDemo 1 0)) = tx (thief laserHitDemo) + 1
      \<and> ty (thief (moveThief laserHitDemo 1 0)) = ty (thief laserHitDemo) + 0
      \<and> \<not> gameOver (moveThief laserHitDemo 1 0)
      \<and> (\<exists>ys. sounds (moveThief laserHitDemo 1 0) = sounds laserHitDemo @ ''hit'' # ''move'' # ys)"
    by blast
  from moveThief_laser [of pickingDemo 1 0] p
  have r3: "moveThief pickingDemo 1 0 = pickingDemo" by blast
  from a1 a2 have w: "isWalkable laserDemo 2 1" "isWalkable laserHitDemo 2 1"
    by (simp_all add: t baseThief_def)
  show ?thesis
    using r2 w p unfolding r1 r3 by (simp add: t baseThief_def)
qed

section \<open>Drone hack: when it takes effect (C3)\<close>




section \<open>EMP freezes guards but keeps their alert memory (C10)\<close>

text \<open>
  C10, as stated, fails: an EMP charge is not enough. droneEMP returns at once when the
  game is over or won, and the server passes the \<open>emp\<close> input to it without looking
  at these flags. In \<open>empOverDemo\<close> the level is lost, the drone still has its charge
  and an unfrozen guard stands under it; droneEMP changes nothing, and the guard is not
  frozen.
\<close>

theorem droneEMP_finished_counterexample:
  "0 < empCharges (drone empOverDemo)
   \<and> map (\<lambda>g. (frozen g, manhattan (gx g) (gy g) (drx (drone empOverDemo)) (dry (drone empOverDemo))))
        (guards empOverDemo) = [(False, 0), (False, 4)]
   \<and> gameOver empOverDemo
   \<and> droneEMP empOverDemo = empOverDemo
   \<and> map frozen (guards (droneEMP empOverDemo)) = [False, False]
   \<and> empCharges (drone (droneEMP empOverDemo)) = 1"
  by (simp add: empOverDemo_def empDemo_def demo_defs droneEMP_def manhattan_def)

text \<open>
  C10, amended. In a running game (neither over nor won) with an EMP charge left,
  droneEMP keeps the number and order of the guards; a guard that is not frozen and
  within Manhattan distance 3 of the drone gets \<open>frozen = true\<close>,
  \<open>frozenTimer = 3000\<close> and \<open>alertLevel = 0\<close> and keeps every other field, in
  particular \<open>alertTimer\<close>, \<open>lastKnownThief\<close> and \<open>investigateTarget\<close>; every other
  guard is unchanged. When the game is over or won, or no charge is left, droneEMP
  leaves the whole state unchanged. By contrast, when droneHack freezes a guard (running
  game, positive battery, no closed electronic door and no active camera under the
  cursor, guard \<open>i\<close> the first unfrozen guard there), that guard's \<open>alertTimer\<close>,
  \<open>lastKnownThief\<close> and \<open>investigateTarget\<close> are cleared as well.
\<close>

theorem droneEMP_guard_frame:
  assumes i: "i < length (guards s)"
  shows "(\<not> gameOver s \<and> \<not> gameWon s \<and> 0 < empCharges (drone s) \<longrightarrow>
            length (guards (droneEMP s)) = length (guards s)
          \<and> empCharges (drone (droneEMP s)) = empCharges (drone s) - 1
          \<and> (let g = guards s ! i; g' = guards (droneEMP s) ! i in
               if \<not> frozen g \<and> manhattan (gx g) (gy g) (drx (drone s)) (dry (drone s)) \<le> 3
               then g' = g\<lparr>frozen := True, frozenTimer := 3000, alertLevel := 0\<rparr>
                  \<and> alertTimer g' = alertTimer g
                  \<and> lastKnownThief g' = lastKnownThief g
                  \<and> investigateTarget g' = investigateTarget g
               else g' = g))
       \<and> (gameOver s \<or> gameWon s \<or> empCharges (drone s) \<le> 0 \<longrightarrow> droneEMP s = s)
       \<and> (\<not> gameOver s \<and> \<not> gameWon s \<and> 0 < battery (drone s)
          \<and> (\<forall>d\<in>set (doors s). \<not> (door_x d = drx (drone s) \<and> door_y d = dry (drone s)
                 \<and> door_type d = electronic \<and> \<not> door_open d))
          \<and> (\<forall>c\<in>set (cameras s). \<not> (cam_x c = drx (drone s) \<and> cam_y c = dry (drone s)
                 \<and> cam_active c))
          \<and> gx (guards s ! i) = drx (drone s) \<and> gy (guards s ! i) = dry (drone s)
          \<and> \<not> frozen (guards s ! i)
          \<and> (\<forall>j<i. \<not> (gx (guards s ! j) = drx (drone s) \<and> gy (guards s ! j) = dry (drone s)
                 \<and> \<not> frozen (guards s ! j)))
          \<longrightarrow> (let g' = guards (droneHack s) ! i in
                 frozen g' \<and> frozenTimer g' = freezeDuration (drone s) \<and> alertLevel g' = 0
               \<and> alertTimer g' = 0 \<and> lastKnownThief g' = None \<and> investigateTarget g' = None))"
proof (intro conjI impI)
  assume c: "\<not> gameOver s \<and> \<not> gameWon s \<and> 0 < empCharges (drone s)"
  then have live: "\<not> gameOver s" "\<not> gameWon s" and ch: "0 < empCharges (drone s)" by simp_all
  show "length (guards (droneEMP s)) = length (guards s)"
    by (simp add: droneEMP_guards [OF live ch] empGuards_length)
  show "empCharges (drone (droneEMP s)) = empCharges (drone s) - 1"
    using live ch by (simp add: droneEMP_def Let_def split: prod.splits)
  show "let g = guards s ! i; g' = guards (droneEMP s) ! i in
          if \<not> frozen g \<and> manhattan (gx g) (gy g) (drx (drone s)) (dry (drone s)) \<le> 3
          then g' = g\<lparr>frozen := True, frozenTimer := 3000, alertLevel := 0\<rparr>
             \<and> alertTimer g' = alertTimer g
             \<and> lastKnownThief g' = lastKnownThief g
             \<and> investigateTarget g' = investigateTarget g
          else g' = g"
    by (simp add: droneEMP_guards [OF live ch] empGuards_nth [OF i] Let_def)
next
  assume "gameOver s \<or> gameWon s \<or> empCharges (drone s) \<le> 0"
  then show "droneEMP s = s" by (auto simp add: droneEMP_def)
next
  assume h: "\<not> gameOver s \<and> \<not> gameWon s \<and> 0 < battery (drone s)
          \<and> (\<forall>d\<in>set (doors s). \<not> (door_x d = drx (drone s) \<and> door_y d = dry (drone s)
                 \<and> door_type d = electronic \<and> \<not> door_open d))
          \<and> (\<forall>c\<in>set (cameras s). \<not> (cam_x c = drx (drone s) \<and> cam_y c = dry (drone s)
                 \<and> cam_active c))
          \<and> gx (guards s ! i) = drx (drone s) \<and> gy (guards s ! i) = dry (drone s)
          \<and> \<not> frozen (guards s ! i)
          \<and> (\<forall>j<i. \<not> (gx (guards s ! j) = drx (drone s) \<and> gy (guards s ! j) = dry (drone s)
                 \<and> \<not> frozen (guards s ! j)))"
  let ?P = "\<lambda>g. gx g = drx (drone s) \<and> gy g = dry (drone s) \<and> \<not> frozen g"
  from h i have ex: "\<exists>g\<in>set (guards s). ?P g" by (auto intro: bexI [of _ "guards s ! i"])
  from h have live: "\<not> gameOver s" "\<not> gameWon s" and b: "0 < battery (drone s)"
    and nd: "\<forall>d\<in>set (doors s). \<not> (door_x d = drx (drone s) \<and> door_y d = dry (drone s)
                 \<and> door_type d = electronic \<and> \<not> door_open d)"
    and nc: "\<forall>c\<in>set (cameras s). \<not> (cam_x c = drx (drone s) \<and> cam_y c = dry (drone s)
                 \<and> cam_active c)"
    and pi: "?P (guards s ! i)" and first: "\<forall>j<i. \<not> ?P (guards s ! j)"
    by simp_all
  show "let g' = guards (droneHack s) ! i in
                 frozen g' \<and> frozenTimer g' = freezeDuration (drone s) \<and> alertLevel g' = 0
               \<and> alertTimer g' = 0 \<and> lastKnownThief g' = None \<and> investigateTarget g' = None"
    by (simp add: droneHack_guards [OF live b nd nc ex] updateFirst_nth_first [OF i pi first] Let_def)
qed

theorem droneEMP_guard_frame_witness:
  "length (guards (droneEMP empDemo)) = 2
   \<and> empCharges (drone (droneEMP empDemo)) = 0
   \<and> guards (droneEMP empDemo) ! 0 = (guards empDemo ! 0)\<lparr>frozen := True, frozenTimer := 3000, alertLevel := 0\<rparr>
   \<and> alertTimer (guards (droneEMP empDemo) ! 0) = 5000
   \<and> lastKnownThief (guards (droneEMP empDemo) ! 0) = Some (1, 1)
   \<and> investigateTarget (guards (droneEMP empDemo) ! 0) = Some (2, 1)
   \<and> guards (droneEMP empDemo) ! 1 = guards empDemo ! 1
   \<and> alertTimer (guards (droneHack empDemo) ! 0) = 0
   \<and> lastKnownThief (guards (droneHack empDemo) ! 0) = None
   \<and> investigateTarget (guards (droneHack empDemo) ! 0) = None
   \<and> gameOver empOverDemo \<and> droneEMP empOverDemo = empOverDemo"
proof -
  have live: "\<not> gameOver empDemo" "\<not> gameWon empDemo"
    by (simp_all add: empDemo_def baseState_def)
  have gs: "guards empDemo = [baseGuard\<lparr>alertLevel := 2, alertTimer := 5000,
                          lastKnownThief := Some (1, 1), investigateTarget := Some (2, 1)\<rparr>,
                baseGuard\<lparr>gx := 7\<rparr>]"
    by (simp add: empDemo_def)
  have dr: "drone empDemo = baseDrone" by (simp add: empDemo_def baseState_def)
  have others: "doors empDemo = []" "cameras empDemo = []"
    by (simp_all add: empDemo_def baseState_def)
  have i0: "0 < length (guards empDemo)" and i1: "1 < length (guards empDemo)"
    by (simp_all add: gs)
  have o: "gameOver empOverDemo" "0 < length (guards empOverDemo)"
    by (simp_all add: empOverDemo_def gs)
  show ?thesis
    using droneEMP_guard_frame [OF i0] droneEMP_guard_frame [OF i1]
      droneEMP_guard_frame [OF o(2)] live o(1)
    by (simp add: gs dr others baseDrone_def baseGuard_def manhattan_def Let_def)
qed

section \<open>Exit unlock (C1)\<close>

text \<open>
  C1 does not hold of the code: the unlock is not guarded against running twice. The
  test \<open>primaryLootCollected \<ge> primaryLootTotal\<close> sits inside the pickup branch and
  is evaluated after every pickup, primary or bonus, without looking at \<open>exitOpen\<close>.
  In \<open>lastLootDemo\<close> the thief collects the last of three primary items: the flag is
  set and \<open>doorOpen\<close> is queued. In \<open>unlockDemo\<close> the flag is already set and all
  primary loot is collected; picking up a bonus item runs the unlock branch once more:
  the flag is assigned again and a second \<open>doorOpen\<close> sound is queued for the
  clients, although no primary item was collected.
\<close>

theorem moveThief_unlock_again:
  "\<not> exitOpen lastLootDemo
   \<and> primaryLootCollected lastLootDemo + 1 = primaryLootTotal lastLootDemo
   \<and> primaryLootCollected (moveThief lastLootDemo 1 0) = primaryLootTotal lastLootDemo
   \<and> exitOpen (moveThief lastLootDemo 1 0)
   \<and> sounds (moveThief lastLootDemo 1 0) = [''move'', ''loot'', ''doorOpen'']
   \<and> exitOpen unlockDemo
   \<and> primaryLootCollected unlockDemo = primaryLootTotal unlockDemo
   \<and> sounds unlockDemo = []
   \<and> primaryLootCollected (moveThief unlockDemo 1 0) = primaryLootCollected unlockDemo
   \<and> bonusLootCollected (moveThief unlockDemo 1 0) = bonusLootCollected unlockDemo + 1
   \<and> exitOpen (moveThief unlockDemo 1 0)
   \<and> sounds (moveThief unlockDemo 1 0) = [''move'', ''loot'', ''doorOpen'']"
proof -
  have a: "\<not> exitOpen lastLootDemo
     \<and> primaryLootCollected lastLootDemo + 1 = primaryLootTotal lastLootDemo
     \<and> primaryLootCollected (moveThief lastLootDemo 1 0) = primaryLootTotal lastLootDemo
     \<and> exitOpen (moveThief lastLootDemo 1 0)
     \<and> sounds (moveThief lastLootDemo 1 0) = [''move'', ''loot'', ''doorOpen'']"
    by (simp add: lastLootDemo_def demo_defs move_defs Let_def)
  have b: "exitOpen unlockDemo
     \<and> primaryLootCollected unlockDemo = primaryLootTotal unlockDemo
     \<and> sounds unlockDemo = []
     \<and> primaryLootCollected (moveThief unlockDemo 1 0) = primaryLootCollected unlockDemo
     \<and> bonusLootCollected (moveThief unlockDemo 1 0) = bonusLootCollected unlockDemo + 1
     \<and> exitOpen (moveThief unlockDemo 1 0)
     \<and> sounds (moveThief unlockDemo 1 0) = [''move'', ''loot'', ''doorOpen'']"
    by (simp add: unlockDemo_def demo_defs move_defs Let_def)
  from a b show ?thesis by blast
qed

section \<open>Negative hit points within one tick (C2)\<close>

text \<open>
  C2 does not hold of the code. tickRoom tests \<open>gameOver\<close> only on entry, and
  updateAlarm and updateLasers take a hit point without looking at \<open>gameOver\<close> or at
  the hit points left. In \<open>caughtDemo\<close> (one hit point, a guard on the thief's tile,
  the alarm in its last 100 ms) one tick lets the guard take the last hit point and set
  \<open>gameOver\<close>, and then lets the alarm expiry take another: the tick ends with
  \<open>hp = -1\<close> and the hit and game-over events recorded twice.
\<close>

theorem tickRoom_hp_negative:
  "hp (thief caughtDemo) = 1 \<and> \<not> gameOver caughtDemo
   \<and> map_option (\<lambda>s. (hp (thief s), gameOver s, sounds s))
        (gameState (tickRoom \<lparr>gameState = Some caughtDemo, paused = False\<rparr> 100))
      = Some (- 1, True, [''hit'', ''gameOver'', ''hit'', ''gameOver''])"
proof -
  have a: "hp (thief caughtDemo) = 1" "\<not> gameOver caughtDemo" "\<not> gameWon caughtDemo"
    by (simp_all add: caughtDemo_def demo_defs)
  have b: "hp (thief (tickState caughtDemo 100)) = - 1
     \<and> gameOver (tickState caughtDemo 100)
     \<and> sounds (tickState caughtDemo 100) = [''hit'', ''gameOver'', ''hit'', ''gameOver'']"
    by (simp add: caughtDemo_def demo_defs guard_defs tick_defs Let_def)
  from a b show ?thesis by (simp add: tickRoom_def)
qed

section \<open>Invulnerability and the damage sources (C5)\<close>

text \<open>
  C5, as stated, fails for the alarm: updateAlarm does not look at \<open>invulnTimer\<close>.
  In \<open>invulnDemo\<close> the thief (two hit points) is invulnerable for another 1000 ms when
  the alarm expires, and loses a hit point; after the whole tick the invulnerability timer is
  still positive.
\<close>

theorem invuln_alarm_counterexample:
  "0 < invulnTimer (thief invulnDemo) \<and> hp (thief invulnDemo) = 2
   \<and> hp (thief (updateAlarm invulnDemo 100)) = 1
   \<and> hp (thief (tickState invulnDemo 100)) = 1
   \<and> invulnTimer (thief (tickState invulnDemo 100)) = 900"
  by (simp add: invulnDemo_def demo_defs guard_defs tick_defs Let_def)

text \<open>
  C5, amended. Each contact check reads the invulnerability timer at the moment it
  runs: called on a state whose timer is positive, neither the guards' update, nor the
  lasers' update, nor a move onto an active laser changes the thief's hit points. The
  alarm is outside the window: updateAlarm takes its hit point exactly when the active
  alarm's countdown reaches zero, whatever the timer, and never changes the timer (it
  starts no window). In a tick the timer is decremented after the guards and the alarm
  and before the lasers, so for a whole tick the protection is this: when the timer at
  the start of the tick is positive and greater than the tick's \<open>dt\<close>, the tick takes
  no hit point except the one of an alarm expiry in that tick. A timer of at most
  \<open>dt\<close> has run out when the lasers are checked (updateInvuln brings it to 0 or
  below), and updateLasers, called with a timer of 0 or less and a laser under the
  thief that is active after its own update, takes exactly one hit point.
\<close>

theorem invuln_blocks_contact:
  "(0 < invulnTimer (thief s) \<longrightarrow>
        hp (thief (updateGuards s dt)) = hp (thief s)
      \<and> hp (thief (updateLasers s dt)) = hp (thief s)
      \<and> hp (thief (moveThief s dx dy)) = hp (thief s))
   \<and> hp (thief (updateAlarm s dt)) =
        (if alarmActive s \<and> alarmTimer s - dt \<le> 0 then hp (thief s) - 1 else hp (thief s))
   \<and> invulnTimer (thief (updateAlarm s dt)) = invulnTimer (thief s)
   \<and> (0 < invulnTimer (thief s) \<and> dt < invulnTimer (thief s) \<longrightarrow>
        hp (thief (tickState s dt)) =
          (let s3 = updateGuards (updatePickLock (s\<lparr>timer := timer s + dt\<rparr>) dt) dt
           in if alarmActive s3 \<and> alarmTimer s3 - dt \<le> 0
              then hp (thief s) - 1 else hp (thief s)))
   \<and> invulnTimer (thief (updateInvuln s dt)) =
        (if 0 < invulnTimer (thief s) then invulnTimer (thief s) - dt
         else invulnTimer (thief s))
   \<and> (invulnTimer (thief s) \<le> 0 \<and> (\<exists>l\<in>set (lasers s). laserOn s dt l) \<longrightarrow>
        hp (thief (updateLasers s dt)) = hp (thief s) - 1)"
  using updateGuards_invuln [of s dt] updateLasers_invuln [of s dt] moveThief_invuln [of s dx dy]
    updateAlarm_thief [of s dt] tickState_invuln [of s dt] updateInvuln_timer [of s dt]
    updateLasers_hit [of s dt]
  by blast

theorem invuln_blocks_contact_witness:
  "0 < invulnTimer (thief contactDemo) \<and> 100 < invulnTimer (thief contactDemo)
   \<and> map (\<lambda>g. (gx g, gy g)) (guards contactDemo) = [(tx (thief contactDemo), ty (thief contactDemo))]
   \<and> map (\<lambda>l. (laser_x l, laser_y l, laser_active l)) (lasers contactDemo)
        = [(1, 1, True), (2, 1, True)]
   \<and> hp (thief contactDemo) = 2
   \<and> hp (thief (updateGuards contactDemo 100)) = 2
   \<and> hp (thief (updateLasers contactDemo 100)) = 2
   \<and> hp (thief (moveThief contactDemo 1 0)) = 2
   \<and> hp (thief (tickState contactDemo 100)) = 2
   \<and> hp (thief (updateAlarm invulnDemo 100)) = 1
   \<and> invulnTimer (thief (updateAlarm invulnDemo 100)) = invulnTimer (thief invulnDemo)
   \<and> invulnTimer (thief lastInvulnDemo) = 100
   \<and> invulnTimer (thief (updateInvuln lastInvulnDemo 100)) = 0
   \<and> hp (thief (updateLasers (updateInvuln lastInvulnDemo 100) 100)) = 1
   \<and> hp (thief (tickState lastInvulnDemo 100)) = 1"
proof -
  have h: "0 < invulnTimer (thief contactDemo)" "100 < invulnTimer (thief contactDemo)"
    by (simp_all add: contactDemo_def demo_defs)
  have f: "hp (thief contactDemo) = 2"
    "map (\<lambda>g. (gx g, gy g)) (guards contactDemo) = [(tx (thief contactDemo), ty (thief contactDemo))]"
    "map (\<lambda>l. (laser_x l, laser_y l, laser_active l)) (lasers contactDemo)
        = [(1, 1, True), (2, 1, True)]"
    by (simp_all add: contactDemo_def demo_defs)
  have q: "alarmTimer (updateGuards (updatePickLock (contactDemo\<lparr>timer := timer contactDemo + 100\<rparr>) 100) 100) = 10000"
    by (simp add: contactDemo_def demo_defs guard_defs tick_defs Let_def)
  have a: "alarmActive invulnDemo" "alarmTimer invulnDemo - 100 \<le> 0" "hp (thief invulnDemo) = 2"
    by (simp_all add: invulnDemo_def demo_defs)
  have l: "invulnTimer (thief lastInvulnDemo) = 100
     \<and> hp (thief (tickState lastInvulnDemo 100)) = 1"
    by (simp add: lastInvulnDemo_def contactDemo_def demo_defs guard_defs tick_defs Let_def)
  have u: "invulnTimer (thief (updateInvuln lastInvulnDemo 100)) \<le> 0"
    "hp (thief (updateInvuln lastInvulnDemo 100)) = 2"
    "\<exists>l\<in>set (lasers (updateInvuln lastInvulnDemo 100)).
        laserOn (updateInvuln lastInvulnDemo 100) 100 l"
    by (simp_all add: lastInvulnDemo_def contactDemo_def demo_defs updateInvuln_def laserOn_def)
  show ?thesis
    using invuln_blocks_contact [of contactDemo 100 1 0] invuln_blocks_contact [of invulnDemo 100 0 0]
      invuln_blocks_contact [of lastInvulnDemo 100 0 0]
      invuln_blocks_contact [of "updateInvuln lastInvulnDemo 100" 100 0 0]
      h f q a l u
    by (simp add: Let_def)
qed

section \<open>No jump from Patrol to Alert without sight or a decoy (C6)\<close>

text \<open>
  C6. In the step of one guard in one tick (the body of the loop of updateGuards), a
  guard that starts at alert level 0 ends at level 2 only if a decoy lies within
  Manhattan distance 6 of it, or it sees the thief after its movement: along its ray,
  on a peripheral tile, or by standing on the thief's tile (\<open>canSeeThief\<close>, evaluated
  on the guard as it is after \<open>guardThink\<close>). Without either, noise-makers and
  sprint noise leave it at level 1 at most. The level never exceeds 2.
\<close>

theorem guardStep_no_jump:
  assumes "alertLevel g = 0"
  shows "(alertLevel (fst (guardStep g s dt)) = 2 \<longrightarrow>
            (\<exists>d\<in>set (decoys s). manhattan (eff_x d) (eff_y d) (gx g) (gy g) \<le> 6)
          \<or> canSeeThief (guardThink (g\<lparr>moveTimer := moveTimer g + dt\<rparr>) s dt) s)
       \<and> (\<not> (\<exists>d\<in>set (decoys s). manhattan (eff_x d) (eff_y d) (gx g) (gy g) \<le> 6)
          \<and> \<not> canSeeThief (guardThink (g\<lparr>moveTimer := moveTimer g + dt\<rparr>) s dt) s
          \<longrightarrow> alertLevel (fst (guardStep g s dt)) \<le> 1)
       \<and> alertLevel (fst (guardStep g s dt)) \<le> 2"
  using guardStep_level [OF assms, of s dt]
  by (cases "alertLevel (fst (guardStep g s dt)) = 2") auto

theorem guardStep_no_jump_witness:
  "alertLevel decoyGuard = 0
   \<and> alertLevel (fst (guardStep decoyGuard decoyDemo 100)) = 2
   \<and> ((\<exists>d\<in>set (decoys decoyDemo). manhattan (eff_x d) (eff_y d) (gx decoyGuard) (gy decoyGuard) \<le> 6)
      \<or> canSeeThief (guardThink (decoyGuard\<lparr>moveTimer := moveTimer decoyGuard + 100\<rparr>) decoyDemo 100)
           decoyDemo)
   \<and> alertLevel (fst (guardStep baseGuard baseState 100)) \<le> 1"
proof -
  have h: "alertLevel decoyGuard = 0" by (simp add: decoyGuard_def demo_defs)
  have h': "alertLevel baseGuard = 0" by (simp add: demo_defs)
  have e: "alertLevel (fst (guardStep decoyGuard decoyDemo 100)) = 2"
    by (simp add: decoyGuard_def decoyDemo_def demo_defs guard_defs Let_def)
  have n: "\<not> (\<exists>d\<in>set (decoys baseState). manhattan (eff_x d) (eff_y d) (gx baseGuard) (gy baseGuard) \<le> 6)"
    by (simp add: baseState_def)
  have c: "\<not> canSeeThief (guardThink (baseGuard\<lparr>moveTimer := moveTimer baseGuard + 100\<rparr>) baseState 100) baseState"
    by (simp add: demo_defs guard_defs upto_1_3 upto_1_5 Let_def)
  show ?thesis
    using guardStep_no_jump [OF h, of decoyDemo 100] guardStep_no_jump [OF h', of baseState 100] h e n c
    by simp
qed

section \<open>Alert timer decay (C7)\<close>

text \<open>
  C7 does not hold of the code. The alert timer is decremented by the tick's \<open>dt\<close>, but
  only in the ticks in which the guard's movement timer matures. The guard of
  \<open>alertDemo\<close> (speed 450, alert level 2, so an interval of 225 ms) thinks every
  third tick of 100 ms: with its alert timer at 10000 ms, no noise-maker, no decoy and
  the thief out of sight, 100 ticks (10000 ms) later it is still at alert level 2 with
  6700 ms left on the timer.
\<close>

theorem alertTimer_outlasts_10000ms:
  "serverTicks 100 (alertRoom 10000 0 0) = alertRoom 6700 100 10000
   \<and> map_option (\<lambda>s. map (\<lambda>g. (alertLevel g, alertTimer g)) (guards s))
        (gameState (serverTicks 100 (alertRoom 10000 0 0))) = Some [(2, 6700)]
   \<and> map_option timer (gameState (serverTicks 100 (alertRoom 10000 0 0))) = Some 10000"
proof -
  have "serverTicks (3 * 33) (alertRoom 10000 0 0) = alertRoom (10000 - 100 * int 33) 0 (0 + 300 * int 33)"
    by (rule alertRoom_rounds) simp
  then have r: "serverTicks 99 (alertRoom 10000 0 0) = alertRoom 6700 0 9900" by simp
  have w: "tickState (alertDemo 6700 0 9900) 100 = alertDemo 6700 100 10000"
    using alert_wait [of 0 6700 9900] by simp
  have l: "broadcastState (tickRoom (alertRoom 6700 0 9900) 100) = alertRoom 6700 100 10000"
    by (subst alertRoom_tick) (simp only: w alertDemo_quiet alertRoom_def)
  have "serverTicks 100 (alertRoom 10000 0 0) = serverTicks 1 (serverTicks 99 (alertRoom 10000 0 0))"
    using serverTicks_add [of 99 1 "alertRoom 10000 0 0"] by simp
  then have t: "serverTicks 100 (alertRoom 10000 0 0) = alertRoom 6700 100 10000"
    by (simp add: r l)
  show ?thesis
    unfolding t by (simp add: alertRoom_def alertDemo_def demo_defs)
qed

section \<open>Level generation (C8)\<close>




end
